theory Spec2Isabelle
  imports Complex_Main "HOL-Library.AList" "HOL-Library.Char_ord" "HOL-Library.List_Lexorder"
    "HOL-Library.Monad_Syntax"
begin

section \<open>JavaScript values and documents\<close>

text \<open>
  The service layer \<^verbatim>\<open>server/services/user.service.js\<close> works on plain JavaScript
  values: request fields that may be absent, strings, the number produced by the OTP
  generator, booleans and dates. Numbers are the integral ones (the service only ever
  produces \<^verbatim>\<open>Math.floor\<close> results); a date carries its time value in milliseconds.
\<close>

datatype jsval =
    JUndefined
  | JNull
  | JBool bool
  | JNum int
  | JStr string
  | JDate int

text \<open>The condition of \<^verbatim>\<open>if (x)\<close> and the negation \<^verbatim>\<open>!x\<close>.\<close>

fun truthy :: "jsval \<Rightarrow> bool" where
  "truthy JUndefined = False"
| "truthy JNull = False"
| "truthy (JBool b) = b"
| "truthy (JNum n) = (n \<noteq> 0)"
| "truthy (JStr s) = (s \<noteq> [])"
| "truthy (JDate t) = True"

text \<open>
  An object (a request payload, an update document, a stored user) is its list of
  properties in insertion order. Reading a property that is absent gives
  \<^verbatim>\<open>undefined\<close>.
\<close>

type_synonym doc = "(string \<times> jsval) list"

definition has_field :: "doc \<Rightarrow> string \<Rightarrow> bool" where
  "has_field d k = (map_of d k \<noteq> None)"

definition get_field :: "doc \<Rightarrow> string \<Rightarrow> jsval" where
  "get_field d k = (case map_of d k of None \<Rightarrow> JUndefined | Some v \<Rightarrow> v)"

section \<open>Errors\<close>

text \<open>
  \<^verbatim>\<open>createError(message, statusCode)\<close> builds an \<^verbatim>\<open>AppError\<close>; a library call
  (bcryptjs) that rejects its arguments throws a plain \<^verbatim>\<open>Error\<close>.
\<close>

datatype error =
    AppError (message: string) (statusCode: nat)
  | JsError string

definition createError :: "string \<Rightarrow> nat \<Rightarrow> error" where
  "createError msg code = AppError msg code"

text \<open>The failures the specification names, as the service raises them.\<close>

definition Conflict :: error where
  "Conflict = AppError ''Email already registered'' 400"

definition NotFound :: error where
  "NotFound = AppError ''User not found'' 404"

definition Expired :: error where
  "Expired = AppError ''OTP has expired'' 400"

definition InvalidOtp :: error where
  "InvalidOtp = AppError ''Invalid OTP'' 400"

section \<open>The credential store\<close>

text \<open>
  Modelled from the spec: the Mongoose model \<^verbatim>\<open>models/user.model.js\<close> is not among
  the sources. The store is the collection of user documents in natural order;
  \<^verbatim>\<open>findOne\<close> returns the first document whose field holds the given value,
  \<^verbatim>\<open>updateOne\<close> and \<^verbatim>\<open>findByIdAndUpdate\<close> write the given fields onto the first
  matching document and touch nothing else, \<^verbatim>\<open>save\<close> appends the new document, and
  \<^verbatim>\<open>select('-a -b')\<close> drops the named fields from the result.
\<close>

definition matches :: "string \<Rightarrow> jsval \<Rightarrow> doc \<Rightarrow> bool" where
  "matches k v d = (map_of d k = Some v)"

definition findOne :: "string \<Rightarrow> jsval \<Rightarrow> doc list \<Rightarrow> doc option" where
  "findOne k v ds = find (matches k v) ds"

definition findById :: "jsval \<Rightarrow> doc list \<Rightarrow> doc option" where
  "findById i ds = findOne ''_id'' i ds"

definition apply_update :: "doc \<Rightarrow> doc \<Rightarrow> doc" where
  "apply_update d upd = fold (\<lambda>(k, v). AList.update k v) upd d"

fun update_first :: "(doc \<Rightarrow> bool) \<Rightarrow> doc \<Rightarrow> doc list \<Rightarrow> doc list" where
  "update_first P upd [] = []"
| "update_first P upd (d # ds) =
     (if P d then apply_update d upd # ds else d # update_first P upd ds)"

definition updateOne :: "string \<Rightarrow> jsval \<Rightarrow> doc \<Rightarrow> doc list \<Rightarrow> doc list" where
  "updateOne k v upd ds = update_first (matches k v) upd ds"

definition findByIdAndUpdate :: "jsval \<Rightarrow> doc \<Rightarrow> doc list \<Rightarrow> doc list" where
  "findByIdAndUpdate i upd ds = updateOne ''_id'' i upd ds"

definition select_minus :: "string list \<Rightarrow> doc \<Rightarrow> doc" where
  "select_minus ks d = filter (\<lambda>(k, v). k \<notin> set ks) d"

text \<open>The result object of \<^verbatim>\<open>updateOne\<close>: how many documents the filter matched.\<close>

definition matchedCount :: "string \<Rightarrow> jsval \<Rightarrow> doc list \<Rightarrow> nat" where
  "matchedCount k v ds = (if findOne k v ds = None then 0 else 1)"

section \<open>Collaborators\<close>

text \<open>
  The hashing library, the token signers and the configuration are outside the
  service; they are parameters. The mail sender is the list of messages handed to it.
\<close>

record env =
  bcrypt_hash_fn :: "string \<Rightarrow> string \<Rightarrow> string"
  bcrypt_compare_fn :: "string \<Rightarrow> string \<Rightarrow> bool"
  FRONTEND_URL :: string
  access_token_fn :: "jsval \<Rightarrow> string"
  refresh_token_fn :: "jsval \<Rightarrow> string"

text \<open>\<^verbatim>\<open>bcryptjs.hash\<close> and \<^verbatim>\<open>bcryptjs.compare\<close> reject arguments that are not strings.\<close>

definition bcrypt_hash :: "env \<Rightarrow> jsval \<Rightarrow> string \<Rightarrow> error + string" where
  "bcrypt_hash e pw salt =
     (case pw of JStr p \<Rightarrow> Inr (bcrypt_hash_fn e p salt)
      | _ \<Rightarrow> Inl (JsError ''Illegal arguments''))"

definition bcrypt_compare :: "env \<Rightarrow> jsval \<Rightarrow> jsval \<Rightarrow> error + bool" where
  "bcrypt_compare e pw h =
     (case (pw, h) of (JStr p, JStr q) \<Rightarrow> Inr (bcrypt_compare_fn e p q)
      | _ \<Rightarrow> Inl (JsError ''Illegal arguments''))"

datatype template =
    VerifyEmailTemplate jsval string jsval
  | ForgotPasswordTemplate jsval jsval

record mail =
  sendTo :: jsval
  subject :: string
  html :: template

record state =
  users :: "doc list"
  outbox :: "mail list"

definition sendEmail :: "mail \<Rightarrow> state \<Rightarrow> state" where
  "sendEmail m st = st\<lparr>outbox := outbox st @ [m]\<rparr>"

section \<open>Decimal text and ISO timestamps\<close>

text \<open>
  \<^verbatim>\<open>String(n)\<close> of an integral number, and the fixed-width decimal fields of
  \<^verbatim>\<open>Date.prototype.toISOString\<close>.
\<close>

definition digit_char :: "nat \<Rightarrow> char" where
  "digit_char n = char_of (48 + n mod 10)"

fun dec :: "nat \<Rightarrow> string" where
  "dec n = (if n < 10 then [digit_char n] else dec (n div 10) @ [digit_char n])"

declare dec.simps [simp del]

definition dec_int :: "int \<Rightarrow> string" where
  "dec_int i = (if i < 0 then CHR ''-'' # dec (nat (- i)) else dec (nat i))"

fun pad :: "nat \<Rightarrow> nat \<Rightarrow> string" where
  "pad 0 n = []"
| "pad (Suc k) n = pad k (n div 10) @ [digit_char n]"

text \<open>
  The calendar of ECMAScript: a time value is a number of milliseconds since the epoch,
  days have 86400000 milliseconds, and the year of a day is the one whose first day is
  the latest not after it (found here by walking from 1970).
\<close>

definition msPerDay :: int where
  "msPerDay = 86400000"

definition Day :: "int \<Rightarrow> int" where
  "Day t = t div msPerDay"

definition DayFromYear :: "int \<Rightarrow> int" where
  "DayFromYear y =
     365 * (y - 1970) + (y - 1969) div 4 - (y - 1901) div 100 + (y - 1601) div 400"

function year_up :: "int \<Rightarrow> int \<Rightarrow> int" where
  "year_up d y = (if DayFromYear (y + 1) \<le> d then year_up d (y + 1) else y)"
  by pat_completeness auto
termination
proof (relation "measure (\<lambda>(d, y). nat (d + 1 - DayFromYear (y + 1)))")
  show "wf (measure (\<lambda>(d, y). nat (d + 1 - DayFromYear (y + 1))))" by simp
next
  fix d y :: int
  assume le: "DayFromYear (y + 1) \<le> d"
  have a: "(y + 1 - 1969) div 4 \<le> (y + 1 + 1 - 1969) div 4" by (rule zdiv_mono1) simp_all
  have "(y + 1 + 1 - 1901) div 100 \<le> (y + 1 - 1901 + 100) div 100" by (rule zdiv_mono1) simp_all
  also have "\<dots> = (y + 1 - 1901) div 100 + 1" by simp
  finally have b: "(y + 1 + 1 - 1901) div 100 \<le> (y + 1 - 1901) div 100 + 1" .
  have c: "(y + 1 - 1601) div 400 \<le> (y + 1 + 1 - 1601) div 400" by (rule zdiv_mono1) simp_all
  have lin: "365 * (y + 1 - 1970) + A - B + C < 365 * (y + 1 + 1 - 1970) + A' - B' + C'"
    if "A \<le> A'" "B' \<le> B + 1" "C \<le> C'" for A A' B B' C C' :: int
    using that by arith
  have "DayFromYear (y + 1) < DayFromYear (y + 1 + 1)"
    unfolding DayFromYear_def by (rule lin [OF a b c])
  with le show "((d, y + 1), (d, y)) \<in> measure (\<lambda>(d, y). nat (d + 1 - DayFromYear (y + 1)))"
    by simp
qed

function year_down :: "int \<Rightarrow> int \<Rightarrow> int" where
  "year_down d y = (if d < DayFromYear y then year_down d (y - 1) else y)"
  by pat_completeness auto
termination
proof (relation "measure (\<lambda>(d, y). nat (DayFromYear y - d))")
  show "wf (measure (\<lambda>(d, y). nat (DayFromYear y - d)))" by simp
next
  fix d y :: int
  assume lt: "d < DayFromYear y"
  have a: "(y - 1 - 1969) div 4 \<le> (y - 1969) div 4" by (rule zdiv_mono1) simp_all
  have "(y - 1901) div 100 \<le> (y - 1 - 1901 + 100) div 100" by (rule zdiv_mono1) simp_all
  also have "\<dots> = (y - 1 - 1901) div 100 + 1" by simp
  finally have b: "(y - 1901) div 100 \<le> (y - 1 - 1901) div 100 + 1" .
  have c: "(y - 1 - 1601) div 400 \<le> (y - 1601) div 400" by (rule zdiv_mono1) simp_all
  have lin: "365 * (y - 1 - 1970) + A - B + C < 365 * (y - 1970) + A' - B' + C'"
    if "A \<le> A'" "B' \<le> B + 1" "C \<le> C'" for A A' B B' C C' :: int
    using that by arith
  have "DayFromYear (y - 1) < DayFromYear y"
    unfolding DayFromYear_def by (rule lin [OF a b c])
  with lt show "((d, y - 1), (d, y)) \<in> measure (\<lambda>(d, y). nat (DayFromYear y - d))"
    by simp
qed

declare year_up.simps [simp del] year_down.simps [simp del]

definition YearFromTime :: "int \<Rightarrow> int" where
  "YearFromTime t = (if 0 \<le> Day t then year_up (Day t) 1970 else year_down (Day t) 1969)"

definition InLeapYear :: "int \<Rightarrow> int" where
  "InLeapYear t =
     (let y = YearFromTime t
      in if y mod 4 \<noteq> 0 then 0 else if y mod 100 \<noteq> 0 then 1 else if y mod 400 \<noteq> 0 then 0 else 1)"

definition DayWithinYear :: "int \<Rightarrow> int" where
  "DayWithinYear t = Day t - DayFromYear (YearFromTime t)"

text \<open>The month (0 to 11) and the day of the month of a day within its year.\<close>

definition month_of_day :: "int \<Rightarrow> int \<Rightarrow> int" where
  "month_of_day d l =
     (if d < 31 then 0
      else if d < 59 + l then 1
      else if d < 90 + l then 2
      else if d < 120 + l then 3
      else if d < 151 + l then 4
      else if d < 181 + l then 5
      else if d < 212 + l then 6
      else if d < 243 + l then 7
      else if d < 273 + l then 8
      else if d < 304 + l then 9
      else if d < 334 + l then 10
      else 11)"

definition date_of_day :: "int \<Rightarrow> int \<Rightarrow> int" where
  "date_of_day d l =
     (let m = month_of_day d l
      in if m = 0 then d + 1
         else if m = 1 then d - 30
         else if m = 2 then d - 58 - l
         else if m = 3 then d - 89 - l
         else if m = 4 then d - 119 - l
         else if m = 5 then d - 150 - l
         else if m = 6 then d - 180 - l
         else if m = 7 then d - 211 - l
         else if m = 8 then d - 242 - l
         else if m = 9 then d - 272 - l
         else if m = 10 then d - 303 - l
         else d - 333 - l)"

definition MonthFromTime :: "int \<Rightarrow> int" where
  "MonthFromTime t = month_of_day (DayWithinYear t) (InLeapYear t)"

definition DateFromTime :: "int \<Rightarrow> int" where
  "DateFromTime t = date_of_day (DayWithinYear t) (InLeapYear t)"

definition HourFromTime :: "int \<Rightarrow> int" where
  "HourFromTime t = (t div 3600000) mod 24"

definition MinFromTime :: "int \<Rightarrow> int" where
  "MinFromTime t = (t div 60000) mod 60"

definition SecFromTime :: "int \<Rightarrow> int" where
  "SecFromTime t = (t div 1000) mod 60"

definition msFromTime :: "int \<Rightarrow> int" where
  "msFromTime t = t mod 1000"

text \<open>Years 0 to 9999 print with four digits, the others with a sign and six.\<close>

definition year_string :: "int \<Rightarrow> string" where
  "year_string y =
     (if 0 \<le> y \<and> y \<le> 9999 then pad 4 (nat y)
      else (if y < 0 then CHR ''-'' else CHR ''+'') # pad 6 (nat \<bar>y\<bar>))"

definition toISOString :: "int \<Rightarrow> string" where
  "toISOString t =
     year_string (YearFromTime t) @ ''-'' @ pad 2 (nat (MonthFromTime t + 1)) @ ''-''
       @ pad 2 (nat (DateFromTime t)) @ ''T'' @ pad 2 (nat (HourFromTime t)) @ '':''
       @ pad 2 (nat (MinFromTime t)) @ '':'' @ pad 2 (nat (SecFromTime t)) @ ''.''
       @ pad 3 (nat (msFromTime t)) @ ''Z''"

text \<open>A date outside the range of time values has no ISO text: \<^verbatim>\<open>toISOString\<close> throws.\<close>

definition valid_time :: "int \<Rightarrow> bool" where
  "valid_time t = (\<bar>t\<bar> \<le> 8640000000000000)"

text \<open>
  \<^verbatim>\<open>x < currentTime\<close> where \<^verbatim>\<open>currentTime\<close> is an ISO timestamp: two strings compare
  by code units; any other left operand is compared as a number with the number of the
  timestamp text, which is NaN, so the comparison is false.
\<close>

fun lt_iso :: "jsval \<Rightarrow> string \<Rightarrow> bool" where
  "lt_iso (JStr a) b = (a < b)"
| "lt_iso _ b = False"

section \<open>Reading an ISO timestamp\<close>

text \<open>
  The inverse of \<^verbatim>\<open>toISOString\<close>: \<^verbatim>\<open>Date.parse\<close> on the date-time format of
  ECMAScript, \<^verbatim>\<open>YYYY-MM-DDTHH:mm:ss.sssZ\<close> with a four-digit year or a sign and six
  digits. This is the only format the service ever writes; a text of any other shape
  is read as no date. The time value is put together by \<^verbatim>\<open>MakeDay\<close>, \<^verbatim>\<open>MakeTime\<close> and
  \<^verbatim>\<open>MakeDate\<close>, and a value outside the range of time values is no date either.
\<close>

definition leap_year :: "int \<Rightarrow> int" where
  "leap_year y =
     (if y mod 4 \<noteq> 0 then 0 else if y mod 100 \<noteq> 0 then 1 else if y mod 400 \<noteq> 0 then 0 else 1)"

definition digit_val :: "char \<Rightarrow> nat option" where
  "digit_val c = (let n = of_char c in if 48 \<le> n \<and> n \<le> 57 then Some (n - 48) else None)"

fun parse_digits :: "nat \<Rightarrow> string \<Rightarrow> nat option" where
  "parse_digits acc [] = Some acc"
| "parse_digits acc (c # cs) =
     (case digit_val c of None \<Rightarrow> None | Some d \<Rightarrow> parse_digits (10 * acc + d) cs)"

definition take_num :: "nat \<Rightarrow> string \<Rightarrow> (nat \<times> string) option" where
  "take_num k s =
     (if length s < k then None
      else case parse_digits 0 (take k s) of None \<Rightarrow> None | Some n \<Rightarrow> Some (n, drop k s))"

definition expect :: "char \<Rightarrow> string \<Rightarrow> string option" where
  "expect c s = (case s of [] \<Rightarrow> None | x # xs \<Rightarrow> if x = c then Some xs else None)"

definition month_start :: "int \<Rightarrow> int \<Rightarrow> int" where
  "month_start m l =
     (if m = 0 then 0
      else if m = 1 then 31
      else if m = 2 then 59 + l
      else if m = 3 then 90 + l
      else if m = 4 then 120 + l
      else if m = 5 then 151 + l
      else if m = 6 then 181 + l
      else if m = 7 then 212 + l
      else if m = 8 then 243 + l
      else if m = 9 then 273 + l
      else if m = 10 then 304 + l
      else 334 + l)"

definition MakeDay :: "int \<Rightarrow> int \<Rightarrow> int \<Rightarrow> int" where
  "MakeDay y m d = DayFromYear y + month_start m (leap_year y) + d - 1"

definition MakeTime :: "int \<Rightarrow> int \<Rightarrow> int \<Rightarrow> int \<Rightarrow> int" where
  "MakeTime h mi s ms = h * 3600000 + mi * 60000 + s * 1000 + ms"

definition MakeDate :: "int \<Rightarrow> int \<Rightarrow> int" where
  "MakeDate day time = day * msPerDay + time"

definition parse_fields :: "int \<Rightarrow> string \<Rightarrow> int option" where
  "parse_fields y s0 = do {
     s1 \<leftarrow> expect (CHR ''-'') s0;
     (mo, s2) \<leftarrow> take_num 2 s1;
     s3 \<leftarrow> expect (CHR ''-'') s2;
     (d, s4) \<leftarrow> take_num 2 s3;
     s5 \<leftarrow> expect (CHR ''T'') s4;
     (h, s6) \<leftarrow> take_num 2 s5;
     s7 \<leftarrow> expect (CHR '':'') s6;
     (mi, s8) \<leftarrow> take_num 2 s7;
     s9 \<leftarrow> expect (CHR '':'') s8;
     (sec, s10) \<leftarrow> take_num 2 s9;
     s11 \<leftarrow> expect (CHR ''.'') s10;
     (ms, s12) \<leftarrow> take_num 3 s11;
     s13 \<leftarrow> expect (CHR ''Z'') s12;
     if s13 = [] \<and> 1 \<le> mo \<and> mo \<le> 12 \<and> 1 \<le> d \<and> d \<le> 31 \<and> mi \<le> 59 \<and> sec \<le> 59
        \<and> (h \<le> 23 \<or> (h = 24 \<and> mi = 0 \<and> sec = 0 \<and> ms = 0))
     then (let t = MakeDate (MakeDay y (int mo - 1) (int d)) (MakeTime (int h) (int mi) (int sec) (int ms))
           in if valid_time t then Some t else None)
     else None
   }"

definition Date_parse :: "string \<Rightarrow> int option" where
  "Date_parse s =
     (case expect (CHR ''+'') s of
        Some cs \<Rightarrow> do { (y, r) \<leftarrow> take_num 6 cs; parse_fields (int y) r }
      | None \<Rightarrow>
          (case expect (CHR ''-'') s of
             Some cs \<Rightarrow> do { (y, r) \<leftarrow> take_num 6 cs; parse_fields (- int y) r }
           | None \<Rightarrow> do { (y, r) \<leftarrow> take_num 4 s; parse_fields (int y) r }))"

section \<open>Registration and lookup\<close>

text \<open>
  Modelled from the spec: the schema defaults of the absent \<^verbatim>\<open>user.model.js\<close>. A
  user is created unverified, Active and with role USER.
\<close>

definition schema_defaults :: doc where
  "schema_defaults =
     [(''verify_email'', JBool False), (''status'', JStr ''Active''), (''role'', JStr ''USER'')]"

text \<open>
  \<^verbatim>\<open>registerUser\<close>: the fresh \<^verbatim>\<open>_id\<close> and the salt come from the environment. The
  function returns \<^verbatim>\<open>savedUser\<close>, the document as it was saved.
\<close>

definition registerUser ::
  "env \<Rightarrow> jsval \<Rightarrow> string \<Rightarrow> jsval \<Rightarrow> jsval \<Rightarrow> jsval \<Rightarrow> state \<Rightarrow> (error + doc) \<times> state" where
  "registerUser e new_id salt name email password st =
     (if \<not> truthy name \<or> \<not> truthy email \<or> \<not> truthy password
      then (Inl (createError ''Please provide email, name, and password'' 400), st)
      else case findOne ''email'' email (users st) of
        Some existingUser \<Rightarrow> (Inl (createError ''Email already registered'' 400), st)
      | None \<Rightarrow>
          (case bcrypt_hash e password salt of
             Inl err \<Rightarrow> (Inl err, st)
           | Inr hashPassword \<Rightarrow>
               let savedUser =
                     [(''_id'', new_id), (''name'', name), (''email'', email),
                      (''password'', JStr hashPassword)] @ schema_defaults;
                   st1 = st\<lparr>users := users st @ [savedUser]\<rparr>;
                   st2 = sendEmail
                          \<lparr>sendTo = email, subject = ''Verify email from QuickPick'',
                           html = VerifyEmailTemplate name (FRONTEND_URL e) new_id\<rparr> st1
               in (Inr savedUser, st2)))"

text \<open>\<^verbatim>\<open>getUserById\<close> only reads the store.\<close>

definition getUserById :: "jsval \<Rightarrow> state \<Rightarrow> error + doc" where
  "getUserById userId st =
     (case findById userId (users st) of
        None \<Rightarrow> Inl (createError ''User not found'' 404)
      | Some user \<Rightarrow> Inr (select_minus [''password'', ''refresh_token''] user))"

section \<open>Login and e-mail verification\<close>

record login_result =
  accessToken :: string
  refreshToken :: string
  user :: doc

text \<open>
  Modelled from the spec: \<^verbatim>\<open>utils/generatedAccessToken.js\<close> and
  \<^verbatim>\<open>utils/generatedRefreshToken.js\<close> are not among the sources. Issuing a refresh
  token signs one for the user id and persists it on the user record, overwriting any
  prior value; issuing an access token only signs.
\<close>

definition generatedAccessToken :: "env \<Rightarrow> jsval \<Rightarrow> string" where
  "generatedAccessToken e userId = access_token_fn e userId"

definition genertedRefreshToken :: "env \<Rightarrow> jsval \<Rightarrow> state \<Rightarrow> string \<times> state" where
  "genertedRefreshToken e userId st =
     (let token = refresh_token_fn e userId
      in (token, st\<lparr>users := updateOne ''_id'' userId [(''refresh_token'', JStr token)] (users st)\<rparr>))"

definition loginUser ::
  "env \<Rightarrow> int \<Rightarrow> jsval \<Rightarrow> jsval \<Rightarrow> state \<Rightarrow> (error + login_result) \<times> state" where
  "loginUser e now email password st =
     (if \<not> truthy email \<or> \<not> truthy password
      then (Inl (createError ''Please provide email and password'' 400), st)
      else case findOne ''email'' email (users st) of
        None \<Rightarrow> (Inl (createError ''User not registered'' 400), st)
      | Some u \<Rightarrow>
          if get_field u ''status'' \<noteq> JStr ''Active''
          then (Inl (createError ''Account is not active. Please contact admin'' 400), st)
          else (case bcrypt_compare e password (get_field u ''password'') of
             Inl err \<Rightarrow> (Inl err, st)
           | Inr isPasswordValid \<Rightarrow>
               if \<not> isPasswordValid then (Inl (createError ''Invalid password'' 400), st)
               else
                 let access = generatedAccessToken e (get_field u ''_id'');
                     (refresh, st1) = genertedRefreshToken e (get_field u ''_id'') st;
                     st2 = st1\<lparr>users := findByIdAndUpdate (get_field u ''_id'')
                             [(''last_login_date'', JDate now)] (users st1)\<rparr>
                 in (Inr \<lparr>accessToken = access, refreshToken = refresh,
                          user = [(''_id'', get_field u ''_id''), (''name'', get_field u ''name''),
                                  (''email'', get_field u ''email''), (''role'', get_field u ''role'')]\<rparr>,
                     st2)))"

definition verifyEmail :: "jsval \<Rightarrow> state \<Rightarrow> (error + bool) \<times> state" where
  "verifyEmail code st =
     (if \<not> truthy code then (Inl (createError ''Verification code is required'' 400), st)
      else case findOne ''_id'' code (users st) of
        None \<Rightarrow> (Inl (createError ''Invalid verification code'' 400), st)
      | Some u \<Rightarrow>
          (Inr True, st\<lparr>users := updateOne ''_id'' code [(''verify_email'', JBool True)] (users st)\<rparr>))"

section \<open>Password reset by one-time code\<close>

text \<open>
  \<^verbatim>\<open>utils/generatedOtp.js\<close>, as quoted in \<^verbatim>\<open>DESIGN.md\<close>:
  \<^verbatim>\<open>Math.floor(100000 + Math.random() * 900000)\<close>. The draw of \<^verbatim>\<open>Math.random()\<close> is
  the argument, a real number.
\<close>

definition generatedOtp :: "real \<Rightarrow> int" where
  "generatedOtp r = \<lfloor>100000 + r * 900000\<rfloor>"

text \<open>
  Modelled from the spec: the schema of the absent \<^verbatim>\<open>user.model.js\<close> types the
  forgot-password OTP as a (nullable) string and its expiry as a (nullable) timestamp.
  A number written to the OTP field is stored as its decimal text, and every other
  value as written. A value written to the expiry field is stored as a date: the text
  of a timestamp as the date it denotes, a number as the date with that time value, and
  the empty string, null and undefined as null; a value that denotes no date is refused
  and the update fails.
\<close>

fun cast_string :: "jsval \<Rightarrow> jsval" where
  "cast_string (JNum n) = JStr (dec_int n)"
| "cast_string v = v"

fun cast_date :: "jsval \<Rightarrow> jsval option" where
  "cast_date JUndefined = Some JNull"
| "cast_date JNull = Some JNull"
| "cast_date (JStr s) = (if s = [] then Some JNull else map_option JDate (Date_parse s))"
| "cast_date (JDate t) = Some (JDate t)"
| "cast_date (JNum n) = (if valid_time n then Some (JDate n) else None)"
| "cast_date (JBool b) = None"

definition forgotPassword :: "int \<Rightarrow> real \<Rightarrow> jsval \<Rightarrow> state \<Rightarrow> (error + bool) \<times> state" where
  "forgotPassword now r email st =
     (if \<not> truthy email then (Inl (createError ''Email is required'' 400), st)
      else case findOne ''email'' email (users st) of
        None \<Rightarrow> (Inl (createError ''Email not found'' 400), st)
      | Some u \<Rightarrow>
          let otp = generatedOtp r;
              expireTime = now + 60 * 60 * 1000
          in if \<not> valid_time expireTime then (Inl (JsError ''Invalid time value''), st)
             else
               (case cast_date (JStr (toISOString expireTime)) of
                  None \<Rightarrow> (Inl (JsError ''Cast to date failed''), st)
                | Some expiry \<Rightarrow>
                    let st1 = st\<lparr>users := findByIdAndUpdate (get_field u ''_id'')
                                 [(''forgot_password_otp'', cast_string (JNum otp)),
                                  (''forgot_password_expiry'', expiry)]
                                 (users st)\<rparr>;
                        st2 = sendEmail
                               \<lparr>sendTo = email, subject = ''Forgot password from QuickPick'',
                                html = ForgotPasswordTemplate (get_field u ''name'') (JNum otp)\<rparr> st1
                    in (Inr True, st2)))"

definition verifyForgotPasswordOtp ::
  "int \<Rightarrow> jsval \<Rightarrow> jsval \<Rightarrow> state \<Rightarrow> (error + bool) \<times> state" where
  "verifyForgotPasswordOtp now email otp st =
     (if \<not> truthy email \<or> \<not> truthy otp
      then (Inl (createError ''Email and OTP are required'' 400), st)
      else case findOne ''email'' email (users st) of
        None \<Rightarrow> (Inl (createError ''Email not found'' 400), st)
      | Some u \<Rightarrow>
          let currentTime = toISOString now
          in if lt_iso (get_field u ''forgot_password_expiry'') currentTime
             then (Inl (createError ''OTP has expired'' 400), st)
             else if otp \<noteq> get_field u ''forgot_password_otp''
             then (Inl (createError ''Invalid OTP'' 400), st)
             else
               (case cast_date (JStr []) of
                  None \<Rightarrow> (Inl (JsError ''Cast to date failed''), st)
                | Some cleared \<Rightarrow>
                    (Inr True,
                     st\<lparr>users := findByIdAndUpdate (get_field u ''_id'')
                            [(''forgot_password_otp'', cast_string (JStr [])),
                             (''forgot_password_expiry'', cleared)]
                            (users st)\<rparr>)))"

definition resetPassword ::
  "env \<Rightarrow> string \<Rightarrow> jsval \<Rightarrow> jsval \<Rightarrow> jsval \<Rightarrow> state \<Rightarrow> (error + bool) \<times> state" where
  "resetPassword e salt email newPassword confirmPassword st =
     (if \<not> truthy email \<or> \<not> truthy newPassword \<or> \<not> truthy confirmPassword
      then (Inl (createError ''Email, new password, and confirmation are required'' 400), st)
      else if newPassword \<noteq> confirmPassword
      then (Inl (createError ''Passwords do not match'' 400), st)
      else case findOne ''email'' email (users st) of
        None \<Rightarrow> (Inl (createError ''Email not found'' 400), st)
      | Some u \<Rightarrow>
          (case bcrypt_hash e newPassword salt of
             Inl err \<Rightarrow> (Inl err, st)
           | Inr hashPassword \<Rightarrow>
               (Inr True,
                st\<lparr>users := findByIdAndUpdate (get_field u ''_id'')
                       [(''password'', JStr hashPassword)] (users st)\<rparr>)))"

section \<open>Profile update\<close>

text \<open>
  \<^verbatim>\<open>updateUserDetails\<close> reads four properties of the payload and builds
  \<^verbatim>\<open>updateData\<close> from those that are truthy; the result is the match count of
  \<^verbatim>\<open>updateOne\<close>.
\<close>

definition updateData_plain :: "doc \<Rightarrow> doc" where
  "updateData_plain updates =
     (if truthy (get_field updates ''name'') then [(''name'', get_field updates ''name'')] else [])
     @ (if truthy (get_field updates ''email'') then [(''email'', get_field updates ''email'')] else [])
     @ (if truthy (get_field updates ''mobile'') then [(''mobile'', get_field updates ''mobile'')] else [])"

definition build_updateData :: "env \<Rightarrow> string \<Rightarrow> doc \<Rightarrow> error + doc" where
  "build_updateData e salt updates =
     (if truthy (get_field updates ''password'')
      then (case bcrypt_hash e (get_field updates ''password'') salt of
              Inl err \<Rightarrow> Inl err
            | Inr h \<Rightarrow> Inr (updateData_plain updates @ [(''password'', JStr h)]))
      else Inr (updateData_plain updates))"

definition updateUserDetails ::
  "env \<Rightarrow> string \<Rightarrow> jsval \<Rightarrow> doc \<Rightarrow> state \<Rightarrow> (error + nat) \<times> state" where
  "updateUserDetails e salt userId updates st =
     (case build_updateData e salt updates of
        Inl err \<Rightarrow> (Inl err, st)
      | Inr updateData \<Rightarrow>
          (Inr (matchedCount ''_id'' userId (users st)),
           st\<lparr>users := updateOne ''_id'' userId updateData (users st)\<rparr>))"

section \<open>A worked instance\<close>

text \<open>
  A concrete environment and the store after one registration, used to run the
  operations on explicit inputs.
\<close>

definition demo_env :: env where
  "demo_env = \<lparr>bcrypt_hash_fn = (\<lambda>p s. s @ ''$'' @ p),
                bcrypt_compare_fn = (\<lambda>p h. drop 5 h = p),
                FRONTEND_URL = ''https://quickpick.example'',
                access_token_fn = (\<lambda>i. ''access''),
                refresh_token_fn = (\<lambda>i. ''refresh'')\<rparr>"

definition empty_state :: state where
  "empty_state = \<lparr>users = [], outbox = []\<rparr>"

definition alice_registered :: state where
  "alice_registered =
     snd (registerUser demo_env (JStr ''u1'') ''salt'' (JStr ''Alice'') (JStr ''alice@x.com'')
            (JStr ''secret123'') empty_state)"

text \<open>
  Alice asks for a password reset at 2026-11-02T09:01:01.123Z with the draw 1/2, and
  then verifies the code one second later.
\<close>

definition alice_otp_requested :: state where
  "alice_otp_requested =
     snd (forgotPassword 1793610061123 (1 / 2) (JStr ''alice@x.com'') alice_registered)"

definition alice_otp_verified :: state where
  "alice_otp_verified =
     snd (verifyForgotPasswordOtp 1793610062000 (JStr ''alice@x.com'') (JStr ''550000'')
            alice_otp_requested)"

definition email_count :: "jsval \<Rightarrow> state \<Rightarrow> nat" where
  "email_count email st = length (filter (matches ''email'' email) (users st))"

section \<open>Well-formed stores, the reset invariant and the operations as steps\<close>

text \<open>
  The database gives every document an \<^verbatim>\<open>_id\<close> and keeps the ids distinct.
\<close>

definition wf_store :: "doc list \<Rightarrow> bool" where
  "wf_store ds = (distinct (map (\<lambda>d. map_of d ''_id'') ds) \<and> None \<notin> set (map (\<lambda>d. map_of d ''_id'') ds))"

text \<open>
  The forgot-password OTP and its expiry are both present (truthy) or both cleared
  (absent, null or the empty string).
\<close>

definition otp_consistent :: "doc \<Rightarrow> bool" where
  "otp_consistent d =
     (truthy (get_field d ''forgot_password_otp'') = truthy (get_field d ''forgot_password_expiry''))"

definition otp_invariant :: "state \<Rightarrow> bool" where
  "otp_invariant st = list_all otp_consistent (users st)"

text \<open>
  Every operation of the service, with its arguments, as a step on the state
  (\<^verbatim>\<open>getUserById\<close> only reads).
\<close>

datatype operation =
    Register jsval string jsval jsval jsval
  | Login int jsval jsval
  | VerifyEmail jsval
  | ForgotPassword int real jsval
  | VerifyForgotPasswordOtp int jsval jsval
  | ResetPassword string jsval jsval jsval
  | UpdateUserDetails string jsval doc
  | GetUserById jsval

fun run :: "env \<Rightarrow> operation \<Rightarrow> state \<Rightarrow> state" where
  "run e (Register i salt name email password) st = snd (registerUser e i salt name email password st)"
| "run e (Login now email password) st = snd (loginUser e now email password st)"
| "run e (VerifyEmail code) st = snd (verifyEmail code st)"
| "run e (ForgotPassword now r email) st = snd (forgotPassword now r email st)"
| "run e (VerifyForgotPasswordOtp now email otp) st = snd (verifyForgotPasswordOtp now email otp st)"
| "run e (ResetPassword salt email newPassword confirmPassword) st =
     snd (resetPassword e salt email newPassword confirmPassword st)"
| "run e (UpdateUserDetails salt userId updates) st = snd (updateUserDetails e salt userId updates st)"
| "run e (GetUserById userId) st = st"

text \<open>The two reset fields of a document, and the operations that are meant to write them.\<close>

definition otp_fields :: "doc \<Rightarrow> jsval option \<times> jsval option" where
  "otp_fields d = (map_of d ''forgot_password_otp'', map_of d ''forgot_password_expiry'')"

fun writes_otp :: "operation \<Rightarrow> bool" where
  "writes_otp (ForgotPassword now r email) = True"
| "writes_otp (VerifyForgotPasswordOtp now email otp) = True"
| "writes_otp _ = False"

text \<open>The times whose year has four digits: from year 0 to the end of year 9999.\<close>

definition iso_range :: "int \<Rightarrow> bool" where
  "iso_range t = (- 62167219200000 \<le> t \<and> t < 253402300800000)"

section \<open>Properties of the store\<close>

lemma has_field_select_minus:
  "has_field (select_minus ks d) k = (has_field d k \<and> k \<notin> set ks)"
  by (induction d) (auto simp: has_field_def select_minus_def)

lemma map_of_select_minus:
  "k \<notin> set ks \<Longrightarrow> map_of (select_minus ks d) k = map_of d k"
  by (induction d) (auto simp: select_minus_def)

lemma map_of_apply_update:
  "map_of (apply_update d upd) = map_of d ++ map_of (rev upd)"
  unfolding apply_update_def
proof (induction upd arbitrary: d)
  case Nil
  show ?case by simp
next
  case (Cons a upd)
  obtain k v where a: "a = (k, v)" by (cases a)
  show ?case by (simp add: a Cons.IH update_conv' map_of_append map_add_upd_left fun_eq_iff map_add_def split: option.split)
qed

lemma map_of_apply_update_other:
  "k \<notin> fst ` set upd \<Longrightarrow> map_of (apply_update d upd) k = map_of d k"
  by (simp add: map_of_apply_update map_add_def map_of_eq_None_iff[THEN iffD2] split: option.split)

lemma update_same: "map_of d k = Some v \<Longrightarrow> AList.update k v d = d"
  by (induction d) (auto split: if_splits)

lemma update_idem: "AList.update k v (AList.update k v d) = AList.update k v d"
  by (induction d) auto

lemma update_first_other_field:
  "k \<notin> fst ` set upd \<Longrightarrow>
   map (\<lambda>d. map_of d k) (update_first P upd ds) = map (\<lambda>d. map_of d k) ds"
  by (induction ds) (simp_all add: map_of_apply_update_other)

lemma length_update_first: "length (update_first P upd ds) = length ds"
  by (induction ds) simp_all

lemma find_update_first:
  "find P ds = Some u \<Longrightarrow> P (apply_update u upd) \<Longrightarrow>
   find P (update_first P upd ds) = Some (apply_update u upd)"
  by (induction ds) (auto split: if_splits)

lemma update_first_idem:
  "find P ds = Some u \<Longrightarrow> P (apply_update u upd) \<Longrightarrow>
   apply_update (apply_update u upd) upd = apply_update u upd \<Longrightarrow>
   update_first P upd (update_first P upd ds) = update_first P upd ds"
  by (induction ds) (auto split: if_splits)

lemma update_first_unchanged:
  "find P ds = Some u \<Longrightarrow> apply_update u upd = u \<Longrightarrow> update_first P upd ds = ds"
  by (induction ds) (auto split: if_splits)

lemma alice_registered_users:
  "users alice_registered =
     [[(''_id'', JStr ''u1''), (''name'', JStr ''Alice''), (''email'', JStr ''alice@x.com''),
       (''password'', JStr ''salt$secret123''), (''verify_email'', JBool False),
       (''status'', JStr ''Active''), (''role'', JStr ''USER'')]]"
  by (simp add: alice_registered_def registerUser_def empty_state_def findOne_def bcrypt_hash_def
      demo_env_def schema_defaults_def sendEmail_def Let_def)

lemma registerUser_Inr:
  assumes "registerUser e i salt name email password st = (Inr u, st1)"
  shows "findOne ''email'' email (users st) = None
         \<and> map_of u ''email'' = Some email \<and> users st1 = users st @ [u]"
proof -
  from assms have t: "truthy name" "truthy email" "truthy password"
    by (auto simp: registerUser_def split: if_splits)
  have none: "findOne ''email'' email (users st) = None"
    using assms t by (cases "findOne ''email'' email (users st)") (simp_all add: registerUser_def)
  obtain h where h: "bcrypt_hash e password salt = Inr h"
    using assms t none by (cases "bcrypt_hash e password salt") (simp_all add: registerUser_def)
  from assms t none h show ?thesis
    by (auto simp: registerUser_def Let_def sendEmail_def)
qed

lemma registerUser_result_has_password:
  assumes "registerUser e i salt name email password st = (Inr u, st1)"
  shows "has_field u ''password''"
proof -
  from assms have t: "truthy name" "truthy email" "truthy password"
    by (auto simp: registerUser_def split: if_splits)
  have none: "findOne ''email'' email (users st) = None"
    using assms t by (cases "findOne ''email'' email (users st)") (simp_all add: registerUser_def)
  obtain h where h: "bcrypt_hash e password salt = Inr h"
    using assms t none by (cases "bcrypt_hash e password salt") (simp_all add: registerUser_def)
  from assms t none h show ?thesis
    by (auto simp: registerUser_def Let_def sendEmail_def has_field_def)
qed

lemma registerUser_success_count:
  assumes "registerUser e i salt name email password st = (Inr u, st1)"
  shows "email_count email st1 = 1"
proof -
  from registerUser_Inr [OF assms]
  have none: "findOne ''email'' email (users st) = None"
    and u: "map_of u ''email'' = Some email" and st1: "users st1 = users st @ [u]" by simp_all
  from none have "filter (matches ''email'' email) (users st) = []"
    by (simp add: findOne_def find_None_iff filter_empty_conv)
  with u st1 show ?thesis by (simp add: email_count_def matches_def)
qed

section \<open>Order of ISO timestamps\<close>

lemma digit_char_less: "(digit_char a < digit_char b) = (a mod 10 < b mod 10)"
  by (simp add: digit_char_def less_char_def)

lemma digit_char_eq: "(digit_char a = digit_char b) = (a mod 10 = b mod 10)"
  by (simp add: digit_char_def char_of_eq_iff take_bit_eq_mod)

lemma append_less_same_length:
  fixes a b :: "'a::linorder list"
  shows "length a = length b \<Longrightarrow> (a @ x < b @ y) = (a < b \<or> (a = b \<and> x < y))"
  by (induction a b rule: list_induct2) auto

lemma lex_core:
  fixes k a b r s :: int
  assumes "0 \<le> r" "r < k" "0 \<le> s" "s < k"
  shows "(k * a + r < k * b + s) = (a < b \<or> (a = b \<and> r < s))"
proof -
  have up: "k * u + k \<le> k * v" if "u < v" for u v :: int
  proof -
    from that have "u + 1 \<le> v" by simp
    with assms have "k * (u + 1) \<le> k * v" by (intro mult_left_mono) simp_all
    then show ?thesis by (simp add: distrib_left)
  qed
  consider "a < b" | "a = b" | "b < a" by linarith
  then show ?thesis
  proof cases
    case 1
    from up [OF 1] assms have "k * a + r < k * b + s" by linarith
    with 1 show ?thesis by simp
  next
    case 2
    then show ?thesis by simp
  next
    case 3
    from up [OF 3] assms have "k * b + s < k * a + r" by linarith
    with 3 show ?thesis by simp
  qed
qed

lemma lex_div_int:
  fixes x y k :: int
  assumes "0 < k"
  shows "(x < y) = (x div k < y div k \<or> (x div k = y div k \<and> x mod k < y mod k))"
  using lex_core [of "x mod k" k "y mod k" "x div k" "y div k"] assms by simp

lemma lex_div_nat:
  fixes n m k :: nat
  assumes "0 < k"
  shows "(n < m) = (n div k < m div k \<or> (n div k = m div k \<and> n mod k < m mod k))"
proof -
  have "(int n < int m) = (int n div int k < int m div int k
      \<or> (int n div int k = int m div int k \<and> int n mod int k < int m mod int k))"
    by (rule lex_div_int) (use assms in simp)
  then show ?thesis by (simp only: zdiv_int [symmetric] zmod_int [symmetric] of_nat_less_iff of_nat_eq_iff)
qed

lemma length_pad: "length (pad k n) = k"
  by (induction k arbitrary: n) simp_all

lemma pad_order:
  "n < 10 ^ k \<Longrightarrow> m < 10 ^ k \<Longrightarrow>
   (pad k n < pad k m) = (n < m) \<and> (pad k n = pad k m) = (n = m)"
proof (induction k arbitrary: n m)
  case 0
  then show ?case by simp
next
  case (Suc k)
  from Suc.prems have "n div 10 < 10 ^ k" "m div 10 < 10 ^ k" by simp_all
  from Suc.IH [OF this]
  have ih: "(pad k (n div 10) < pad k (m div 10)) = (n div 10 < m div 10)"
    "(pad k (n div 10) = pad k (m div 10)) = (n div 10 = m div 10)" by simp_all
  have l: "length (pad k (n div 10)) = length (pad k (m div 10))" by (simp add: length_pad)
  have lt: "(n < m) = (n div 10 < m div 10 \<or> (n div 10 = m div 10 \<and> n mod 10 < m mod 10))"
    by (rule lex_div_nat) simp
  have eq: "(n = m) = (n div 10 = m div 10 \<and> n mod 10 = m mod 10)"
    by (metis div_mult_mod_eq)
  show ?case
    by (simp add: append_less_same_length [OF l] ih digit_char_less digit_char_eq lt eq)
qed

lemma DayFromYear_less_succ: "DayFromYear y < DayFromYear (y + 1)"
proof -
  have a: "(y - 1969) div 4 \<le> (y + 1 - 1969) div 4" by (rule zdiv_mono1) simp_all
  have "(y + 1 - 1901) div 100 \<le> (y - 1901 + 100) div 100" by (rule zdiv_mono1) simp_all
  also have "\<dots> = (y - 1901) div 100 + 1" by simp
  finally have b: "(y + 1 - 1901) div 100 \<le> (y - 1901) div 100 + 1" .
  have c: "(y - 1601) div 400 \<le> (y + 1 - 1601) div 400" by (rule zdiv_mono1) simp_all
  have lin: "365 * (y - 1970) + A - B + C < 365 * (y + 1 - 1970) + A' - B' + C'"
    if "A \<le> A'" "B' \<le> B + 1" "C \<le> C'" for A A' B B' C C' :: int
    using that by arith
  show ?thesis unfolding DayFromYear_def by (rule lin [OF a b c])
qed

lemma DayFromYear_succ_le: "DayFromYear (y + 1) \<le> DayFromYear y + 367"
proof -
  have "(y + 1 - 1969) div 4 \<le> (y - 1969 + 4) div 4" by (rule zdiv_mono1) simp_all
  also have "\<dots> = (y - 1969) div 4 + 1" by simp
  finally have a: "(y + 1 - 1969) div 4 \<le> (y - 1969) div 4 + 1" .
  have b: "(y - 1901) div 100 \<le> (y + 1 - 1901) div 100" by (rule zdiv_mono1) simp_all
  have "(y + 1 - 1601) div 400 \<le> (y - 1601 + 400) div 400" by (rule zdiv_mono1) simp_all
  also have "\<dots> = (y - 1601) div 400 + 1" by simp
  finally have c: "(y + 1 - 1601) div 400 \<le> (y - 1601) div 400 + 1" .
  have lin: "365 * (y + 1 - 1970) + A' - B' + C' \<le> 365 * (y - 1970) + A - B + C + 367"
    if "A' \<le> A + 1" "B \<le> B'" "C' \<le> C + 1" for A A' B B' C C' :: int
    using that by arith
  show ?thesis unfolding DayFromYear_def by (rule lin [OF a b c])
qed

lemma DayFromYear_less_add: "DayFromYear y < DayFromYear (y + 1 + int k)"
proof (induction k)
  case 0
  show ?case using DayFromYear_less_succ [of y] by simp
next
  case (Suc k)
  have "DayFromYear (y + 1 + int k) < DayFromYear (y + 1 + int k + 1)"
    by (rule DayFromYear_less_succ)
  with Suc show ?case by (simp add: add.assoc)
qed

lemma DayFromYear_strict_mono: "y < z \<Longrightarrow> DayFromYear y < DayFromYear z"
proof -
  assume "y < z"
  then have "z = y + 1 + int (nat (z - y - 1))" by simp
  then show ?thesis using DayFromYear_less_add [of y "nat (z - y - 1)"] by simp
qed

lemma DayFromYear_mono: "y \<le> z \<Longrightarrow> DayFromYear y \<le> DayFromYear z"
  using DayFromYear_strict_mono [of y z] by (cases "y = z") auto

lemma year_up_spec:
  "DayFromYear y \<le> d \<Longrightarrow> DayFromYear (year_up d y) \<le> d \<and> d < DayFromYear (year_up d y + 1)"
proof (induction d y rule: year_up.induct)
  case (1 d y)
  show ?case
  proof (cases "DayFromYear (y + 1) \<le> d")
    case True
    with "1.IH" show ?thesis by (subst (1 2) year_up.simps) simp
  next
    case False
    with "1.prems" show ?thesis by (subst (1 2) year_up.simps) simp
  qed
qed

lemma year_down_spec:
  "d < DayFromYear (y + 1) \<Longrightarrow> DayFromYear (year_down d y) \<le> d \<and> d < DayFromYear (year_down d y + 1)"
proof (induction d y rule: year_down.induct)
  case (1 d y)
  show ?case
  proof (cases "d < DayFromYear y")
    case True
    with "1.IH" show ?thesis by (subst (1 2) year_down.simps) simp
  next
    case False
    with "1.prems" show ?thesis by (subst (1 2) year_down.simps) simp
  qed
qed

lemma YearFromTime_spec:
  "DayFromYear (YearFromTime t) \<le> Day t \<and> Day t < DayFromYear (YearFromTime t + 1)"
proof (cases "0 \<le> Day t")
  case True
  have "DayFromYear 1970 \<le> Day t" using True by (simp add: DayFromYear_def)
  from year_up_spec [OF this] True show ?thesis by (simp add: YearFromTime_def)
next
  case False
  have "Day t < DayFromYear (1969 + 1)" using False by (simp add: DayFromYear_def)
  from year_down_spec [OF this] False show ?thesis by (simp add: YearFromTime_def)
qed

lemma YearFromTime_mono:
  assumes "Day s \<le> Day t"
  shows "YearFromTime s \<le> YearFromTime t"
proof (rule ccontr)
  assume "\<not> YearFromTime s \<le> YearFromTime t"
  then have "YearFromTime t + 1 \<le> YearFromTime s" by simp
  then have "DayFromYear (YearFromTime t + 1) \<le> DayFromYear (YearFromTime s)"
    by (rule DayFromYear_mono)
  with YearFromTime_spec [of s] YearFromTime_spec [of t] assms show False by simp
qed

lemma month_date_lex:
  assumes "0 \<le> l" "l \<le> 1" "0 \<le> d1" "d1 < d2"
  shows "month_of_day d1 l < month_of_day d2 l
         \<or> (month_of_day d1 l = month_of_day d2 l \<and> date_of_day d1 l < date_of_day d2 l)"
  using assms by (auto simp: month_of_day_def date_of_day_def Let_def split: if_splits)

lemma month_of_day_bounds: "0 \<le> month_of_day d l \<and> month_of_day d l \<le> 11"
  by (simp add: month_of_day_def)

lemma date_of_day_bounds:
  assumes "0 \<le> l" "l \<le> 1" "0 \<le> d" "d \<le> 366"
  shows "1 \<le> date_of_day d l \<and> date_of_day d l \<le> 33"
  using assms by (auto simp: month_of_day_def date_of_day_def Let_def split: if_splits)

lemma InLeapYear_bounds: "0 \<le> InLeapYear t \<and> InLeapYear t \<le> 1"
  by (simp add: InLeapYear_def Let_def)

lemma DayWithinYear_bounds: "0 \<le> DayWithinYear t \<and> DayWithinYear t \<le> 366"
  using YearFromTime_spec [of t] DayFromYear_succ_le [of "YearFromTime t"]
  by (simp add: DayWithinYear_def)

lemma time_lex:
  assumes "s < t"
  shows "Day s < Day t \<or> (Day s = Day t \<and>
          (HourFromTime s < HourFromTime t \<or> (HourFromTime s = HourFromTime t \<and>
          (MinFromTime s < MinFromTime t \<or> (MinFromTime s = MinFromTime t \<and>
          (SecFromTime s < SecFromTime t \<or> (SecFromTime s = SecFromTime t \<and>
           msFromTime s < msFromTime t)))))))"
proof -
  have d1: "x div 60000 = x div 1000 div 60" for x :: int
    using zdiv_zmult2_eq [of 60 x 1000] by simp
  have d2: "x div 3600000 = x div 60000 div 60" for x :: int
    using zdiv_zmult2_eq [of 60 x 60000] by simp
  have d3: "x div 86400000 = x div 3600000 div 24" for x :: int
    using zdiv_zmult2_eq [of 24 x 3600000] by simp
  have A: "(s < t) = (s div 1000 < t div 1000 \<or> (s div 1000 = t div 1000 \<and> s mod 1000 < t mod 1000))"
    by (rule lex_div_int) simp
  have B: "(s div 1000 < t div 1000) = (s div 60000 < t div 60000
            \<or> (s div 60000 = t div 60000 \<and> s div 1000 mod 60 < t div 1000 mod 60))"
    unfolding d1 by (rule lex_div_int) simp
  have C: "(s div 60000 < t div 60000) = (s div 3600000 < t div 3600000
            \<or> (s div 3600000 = t div 3600000 \<and> s div 60000 mod 60 < t div 60000 mod 60))"
    unfolding d2 by (rule lex_div_int) simp
  have D: "(s div 3600000 < t div 3600000) = (s div 86400000 < t div 86400000
            \<or> (s div 86400000 = t div 86400000 \<and> s div 3600000 mod 24 < t div 3600000 mod 24))"
    unfolding d3 by (rule lex_div_int) simp
  have e1: "s div 1000 = t div 1000 \<Longrightarrow> s div 60000 = t div 60000" by (simp add: d1)
  have e2: "s div 60000 = t div 60000 \<Longrightarrow> s div 3600000 = t div 3600000" by (simp add: d2)
  have e3: "s div 3600000 = t div 3600000 \<Longrightarrow> s div 86400000 = t div 86400000" by (simp add: d3)
  from assms A B C D e1 e2 e3 show ?thesis
    unfolding Day_def msPerDay_def HourFromTime_def MinFromTime_def SecFromTime_def msFromTime_def
    by metis
qed

lemma Day_eq_fields:
  assumes "Day s = Day t"
  shows "YearFromTime s = YearFromTime t" "InLeapYear s = InLeapYear t"
    "MonthFromTime s = MonthFromTime t" "DateFromTime s = DateFromTime t"
  using assms
  by (simp_all add: YearFromTime_def InLeapYear_def MonthFromTime_def DateFromTime_def DayWithinYear_def)

lemma date_lex:
  assumes "Day s < Day t"
  shows "YearFromTime s < YearFromTime t \<or> (YearFromTime s = YearFromTime t \<and>
          (MonthFromTime s < MonthFromTime t \<or> (MonthFromTime s = MonthFromTime t \<and>
           DateFromTime s < DateFromTime t)))"
proof (cases "YearFromTime s = YearFromTime t")
  case True
  then have l: "InLeapYear s = InLeapYear t" by (simp add: InLeapYear_def)
  from True assms have "DayWithinYear s < DayWithinYear t" by (simp add: DayWithinYear_def)
  with month_date_lex [of "InLeapYear t" "DayWithinYear s" "DayWithinYear t"]
    InLeapYear_bounds [of t] DayWithinYear_bounds [of s] True l
  show ?thesis by (simp add: MonthFromTime_def DateFromTime_def)
next
  case False
  moreover from assms have "YearFromTime s \<le> YearFromTime t" by (intro YearFromTime_mono) simp
  ultimately show ?thesis by simp
qed


lemma YearFromTime_range:
  assumes "iso_range t"
  shows "0 \<le> YearFromTime t \<and> YearFromTime t \<le> 9999"
proof -
  from assms have "(- 62167219200000) div 86400000 \<le> t div 86400000"
    by (intro zdiv_mono1) (simp_all add: iso_range_def)
  then have lo: "- 719528 \<le> Day t" by (simp add: Day_def msPerDay_def)
  from assms have "t div 86400000 \<le> 253402300799999 div 86400000"
    by (intro zdiv_mono1) (simp_all add: iso_range_def)
  then have hi: "Day t \<le> 2932896" by (simp add: Day_def msPerDay_def)
  have y0: "DayFromYear 0 = - 719528" and y1: "DayFromYear 10000 = 2932897"
    by (simp_all add: DayFromYear_def)
  have "0 \<le> YearFromTime t"
  proof (rule ccontr)
    assume "\<not> 0 \<le> YearFromTime t"
    then have "YearFromTime t + 1 \<le> 0" by simp
    from DayFromYear_mono [OF this] YearFromTime_spec [of t] lo y0 show False by simp
  qed
  moreover have "YearFromTime t \<le> 9999"
  proof (rule ccontr)
    assume "\<not> YearFromTime t \<le> 9999"
    then have "10000 \<le> YearFromTime t" by simp
    from DayFromYear_mono [OF this] YearFromTime_spec [of t] hi y1 show False by simp
  qed
  ultimately show ?thesis by simp
qed

lemma field_bounds:
  "0 \<le> HourFromTime t \<and> HourFromTime t < 24"
  "0 \<le> MinFromTime t \<and> MinFromTime t < 60"
  "0 \<le> SecFromTime t \<and> SecFromTime t < 60"
  "0 \<le> msFromTime t \<and> msFromTime t < 1000"
  "0 \<le> MonthFromTime t \<and> MonthFromTime t \<le> 11"
  "1 \<le> DateFromTime t \<and> DateFromTime t \<le> 33"
  using month_of_day_bounds [of "DayWithinYear t" "InLeapYear t"]
    date_of_day_bounds [of "InLeapYear t" "DayWithinYear t"]
    InLeapYear_bounds [of t] DayWithinYear_bounds [of t]
  by (simp_all add: HourFromTime_def MinFromTime_def SecFromTime_def msFromTime_def
      MonthFromTime_def DateFromTime_def)

lemma toISOString_less:
  assumes "iso_range s" "iso_range t" "s < t"
  shows "toISOString s < toISOString t"
proof -
  note b = field_bounds [of s] field_bounds [of t]
    YearFromTime_range [OF assms(1)] YearFromTime_range [OF assms(2)]
  have lex: "YearFromTime s < YearFromTime t \<or> (YearFromTime s = YearFromTime t \<and>
          (MonthFromTime s < MonthFromTime t \<or> (MonthFromTime s = MonthFromTime t \<and>
          (DateFromTime s < DateFromTime t \<or> (DateFromTime s = DateFromTime t \<and>
          (HourFromTime s < HourFromTime t \<or> (HourFromTime s = HourFromTime t \<and>
          (MinFromTime s < MinFromTime t \<or> (MinFromTime s = MinFromTime t \<and>
          (SecFromTime s < SecFromTime t \<or> (SecFromTime s = SecFromTime t \<and>
           msFromTime s < msFromTime t)))))))))))"
  proof (cases "Day s < Day t")
    case True
    from date_lex [OF True] show ?thesis by blast
  next
    case False
    with time_lex [OF assms(3)] have eq: "Day s = Day t" by simp
    from time_lex [OF assms(3)] False Day_eq_fields [OF eq] show ?thesis by simp
  qed
  have p4: "(pad 4 (nat x) < pad 4 (nat y)) = (x < y)" "(pad 4 (nat x) = pad 4 (nat y)) = (x = y)"
    if "0 \<le> x \<and> x \<le> 9999" "0 \<le> y \<and> y \<le> 9999" for x y :: int
  proof -
    from that have "nat x < 10 ^ 4" "nat y < 10 ^ 4" by (simp_all, arith+)
    from pad_order [OF this] that
    show "(pad 4 (nat x) < pad 4 (nat y)) = (x < y)" "(pad 4 (nat x) = pad 4 (nat y)) = (x = y)"
      by auto
  qed
  have p3: "(pad 3 (nat x) < pad 3 (nat y)) = (x < y)" "(pad 3 (nat x) = pad 3 (nat y)) = (x = y)"
    if "0 \<le> x \<and> x < 1000" "0 \<le> y \<and> y < 1000" for x y :: int
  proof -
    from that have "nat x < 10 ^ 3" "nat y < 10 ^ 3" by (simp_all, arith+)
    from pad_order [OF this] that
    show "(pad 3 (nat x) < pad 3 (nat y)) = (x < y)" "(pad 3 (nat x) = pad 3 (nat y)) = (x = y)"
      by auto
  qed
  have p2: "(pad 2 (nat x) < pad 2 (nat y)) = (x < y)" "(pad 2 (nat x) = pad 2 (nat y)) = (x = y)"
    if "0 \<le> x \<and> x < 100" "0 \<le> y \<and> y < 100" for x y :: int
  proof -
    from that have "nat x < 10 ^ 2" "nat y < 10 ^ 2" by (simp_all, arith+)
    from pad_order [OF this] that
    show "(pad 2 (nat x) < pad 2 (nat y)) = (x < y)" "(pad 2 (nat x) = pad 2 (nat y)) = (x = y)"
      by auto
  qed
  have m: "0 \<le> MonthFromTime s + 1 \<and> MonthFromTime s + 1 < 100"
    "0 \<le> MonthFromTime t + 1 \<and> MonthFromTime t + 1 < 100"
    "0 \<le> DateFromTime s \<and> DateFromTime s < 100" "0 \<le> DateFromTime t \<and> DateFromTime t < 100"
    "0 \<le> HourFromTime s \<and> HourFromTime s < 100" "0 \<le> HourFromTime t \<and> HourFromTime t < 100"
    "0 \<le> MinFromTime s \<and> MinFromTime s < 100" "0 \<le> MinFromTime t \<and> MinFromTime t < 100"
    "0 \<le> SecFromTime s \<and> SecFromTime s < 100" "0 \<le> SecFromTime t \<and> SecFromTime t < 100"
    using b by simp_all
  have ys: "year_string (YearFromTime s) = pad 4 (nat (YearFromTime s))"
    and yt: "year_string (YearFromTime t) = pad 4 (nat (YearFromTime t))"
    using b by (simp_all add: year_string_def)
  show ?thesis
    unfolding toISOString_def ys yt
    using lex
    by (auto simp add: append_less_same_length length_pad p4 [OF b(13) b(14)] p3 [OF b(4) b(10)]
        p2 [OF m(1) m(2)] p2 [OF m(3) m(4)] p2 [OF m(5) m(6)] p2 [OF m(7) m(8)] p2 [OF m(9) m(10)])
qed

lemma toISOString_not_less:
  assumes "iso_range s" "iso_range t" "s \<le> t"
  shows "\<not> toISOString t < toISOString s"
proof (cases "s = t")
  case True
  then show ?thesis by simp
next
  case False
  with assms have "toISOString s < toISOString t" by (intro toISOString_less) simp_all
  then show ?thesis by simp
qed

section \<open>Update payloads and the reset invariant\<close>

lemma keys_updateData_plain:
  "k \<in> fst ` set (updateData_plain updates) \<Longrightarrow>
   k \<in> {''name'', ''email'', ''mobile''} \<and> truthy (get_field updates k)"
  by (auto simp: updateData_plain_def split: if_splits)

lemma keys_build_updateData:
  assumes "build_updateData e salt updates = Inr ud" and "k \<in> fst ` set ud"
  shows "k \<in> {''name'', ''email'', ''mobile'', ''password''} \<and> truthy (get_field updates k)"
proof (cases "truthy (get_field updates ''password'')")
  case False
  with assms have "ud = updateData_plain updates" by (simp add: build_updateData_def)
  with assms(2) keys_updateData_plain [of k updates] show ?thesis by auto
next
  case True
  with assms(1) obtain h where "ud = updateData_plain updates @ [(''password'', JStr h)]"
    by (cases "bcrypt_hash e (get_field updates ''password'') salt") (auto simp: build_updateData_def)
  with assms(2) keys_updateData_plain [of k updates] True show ?thesis by auto
qed

lemma get_field_apply_update_other:
  "k \<notin> fst ` set upd \<Longrightarrow> get_field (apply_update d upd) k = get_field d k"
  by (simp add: get_field_def map_of_apply_update_other)

lemma otp_consistent_other:
  "''forgot_password_otp'' \<notin> fst ` set upd \<Longrightarrow> ''forgot_password_expiry'' \<notin> fst ` set upd \<Longrightarrow>
   otp_consistent (apply_update d upd) = otp_consistent d"
  by (simp add: otp_consistent_def get_field_apply_update_other)

lemma otp_consistent_both:
  "truthy a = truthy b \<Longrightarrow>
   otp_consistent (apply_update d [(''forgot_password_otp'', a), (''forgot_password_expiry'', b)])"
  by (simp add: otp_consistent_def get_field_def map_of_apply_update)

lemma list_all_update_first:
  "(\<And>d. Q d \<Longrightarrow> Q (apply_update d upd)) \<Longrightarrow> list_all Q ds \<Longrightarrow> list_all Q (update_first P upd ds)"
  by (induction ds) auto

lemma dec_not_empty: "dec n \<noteq> []"
  by (subst dec.simps) simp

lemma dec_int_not_empty: "dec_int i \<noteq> []"
  by (simp add: dec_int_def dec_not_empty)

lemma toISOString_not_empty: "toISOString t \<noteq> []"
  by (simp add: toISOString_def)

lemma inv_updateOne_other:
  "''forgot_password_otp'' \<notin> fst ` set upd \<Longrightarrow> ''forgot_password_expiry'' \<notin> fst ` set upd \<Longrightarrow>
   list_all otp_consistent ds \<Longrightarrow> list_all otp_consistent (updateOne k v upd ds)"
  unfolding updateOne_def by (rule list_all_update_first) (simp_all add: otp_consistent_other)

lemma inv_registerUser:
  "otp_invariant st \<Longrightarrow> otp_invariant (snd (registerUser e i salt name email password st))"
  by (auto simp: registerUser_def otp_invariant_def Let_def sendEmail_def otp_consistent_def
      get_field_def schema_defaults_def split: option.splits sum.splits)

lemma inv_loginUser:
  "otp_invariant st \<Longrightarrow> otp_invariant (snd (loginUser e now email password st))"
  by (auto simp: loginUser_def otp_invariant_def Let_def genertedRefreshToken_def findByIdAndUpdate_def
      inv_updateOne_other split: option.splits sum.splits)

lemma inv_verifyEmail:
  "otp_invariant st \<Longrightarrow> otp_invariant (snd (verifyEmail code st))"
  by (auto simp: verifyEmail_def otp_invariant_def inv_updateOne_other split: option.splits)

lemma cast_date_text_truthy: "s \<noteq> [] \<Longrightarrow> cast_date (JStr s) = Some v \<Longrightarrow> truthy v"
  by auto

lemma inv_forgotPassword:
  "otp_invariant st \<Longrightarrow> otp_invariant (snd (forgotPassword now r email st))"
  by (auto simp: forgotPassword_def otp_invariant_def Let_def sendEmail_def findByIdAndUpdate_def
      updateOne_def dec_int_not_empty toISOString_not_empty
      intro!: list_all_update_first otp_consistent_both split: option.splits)

lemma inv_verifyForgotPasswordOtp:
  "otp_invariant st \<Longrightarrow> otp_invariant (snd (verifyForgotPasswordOtp now email otp st))"
  by (auto simp: verifyForgotPasswordOtp_def otp_invariant_def Let_def findByIdAndUpdate_def
      updateOne_def intro!: list_all_update_first otp_consistent_both split: option.splits)

lemma inv_resetPassword:
  "otp_invariant st \<Longrightarrow> otp_invariant (snd (resetPassword e salt email newPassword confirmPassword st))"
  by (auto simp: resetPassword_def otp_invariant_def findByIdAndUpdate_def
      inv_updateOne_other split: option.splits sum.splits)

lemma inv_updateUserDetails:
  assumes "otp_invariant st"
  shows "otp_invariant (snd (updateUserDetails e salt userId updates st))"
proof (cases "build_updateData e salt updates")
  case (Inl err)
  with assms show ?thesis by (simp add: updateUserDetails_def)
next
  case (Inr ud)
  from keys_build_updateData [OF Inr]
  have "''forgot_password_otp'' \<notin> fst ` set ud" "''forgot_password_expiry'' \<notin> fst ` set ud"
    by auto
  with assms Inr show ?thesis
    by (simp add: updateUserDetails_def otp_invariant_def inv_updateOne_other)
qed

section \<open>Reading back a written timestamp\<close>

lemma digit_val_digit_char: "digit_val (digit_char n) = Some (n mod 10)"
  by (simp add: digit_val_def digit_char_def)

lemma parse_digits_append:
  "parse_digits acc (xs @ ys) =
     (case parse_digits acc xs of None \<Rightarrow> None | Some a \<Rightarrow> parse_digits a ys)"
  by (induction xs arbitrary: acc) (simp_all split: option.split)

lemma parse_digits_pad: "n < 10 ^ k \<Longrightarrow> parse_digits acc (pad k n) = Some (acc * 10 ^ k + n)"
proof (induction k arbitrary: n)
  case 0
  then show ?case by simp
next
  case (Suc k)
  from Suc.prems have "n div 10 < 10 ^ k" by (simp add: div_less_iff_less_mult mult.commute)
  from Suc.IH [OF this] show ?case
    by (simp add: parse_digits_append digit_val_digit_char algebra_simps)
qed

lemma take_num_pad: "n < 10 ^ k \<Longrightarrow> take_num k (pad k n @ xs) = Some (n, xs)"
  by (simp add: take_num_def length_pad parse_digits_pad)

lemma pad_Cons: "\<exists>d cs. pad (Suc k) n = digit_char d # cs"
proof (induction k arbitrary: n)
  case 0
  have "pad (Suc 0) n = digit_char n # []" by simp
  then show ?case by blast
next
  case (Suc k)
  from Suc [of "n div 10"] obtain d cs where "pad (Suc k) (n div 10) = digit_char d # cs" by blast
  then have "pad (Suc (Suc k)) n = digit_char d # (cs @ [digit_char n])" by simp
  then show ?case by blast
qed

lemma digit_char_not_sign: "digit_char d \<noteq> CHR ''+''" "digit_char d \<noteq> CHR ''-''"
proof -
  have "of_char (digit_char d) = 48 + d mod 10" by (simp add: digit_char_def)
  moreover have "of_char (CHR ''+'') = (43::nat)" "of_char (CHR ''-'') = (45::nat)" by simp_all
  ultimately show "digit_char d \<noteq> CHR ''+''" "digit_char d \<noteq> CHR ''-''" by auto
qed

lemma expect_pad:
  "expect (CHR ''+'') (pad (Suc k) n @ xs) = None" "expect (CHR ''-'') (pad (Suc k) n @ xs) = None"
proof -
  obtain d cs where "pad (Suc k) n = digit_char d # cs" using pad_Cons by blast
  then show "expect (CHR ''+'') (pad (Suc k) n @ xs) = None"
    "expect (CHR ''-'') (pad (Suc k) n @ xs) = None"
    by (simp_all add: expect_def digit_char_not_sign)
qed

lemma expect_Cons: "expect c (c # xs) = Some xs"
  by (simp add: expect_def)

lemma div_succ:
  fixes x n :: int
  assumes "0 < n"
  shows "(x + 1) div n = x div n + (if (x + 1) mod n = 0 then 1 else 0)"
proof (cases "x mod n + 1 < n")
  case True
  have "x + 1 = n * (x div n) + (x mod n + 1)" by simp
  moreover have "0 \<le> x mod n + 1" using assms by (simp add: add_nonneg_nonneg)
  ultimately have d: "(x + 1) div n = x div n" and m: "(x + 1) mod n = x mod n + 1"
    using True by (metis int_div_pos_eq, metis int_mod_pos_eq)
  have "0 \<le> x mod n" using assms by simp
  with m have "(x + 1) mod n \<noteq> 0" by simp
  with d show ?thesis by simp
next
  case False
  moreover have "x mod n < n" using assms by simp
  ultimately have r: "x mod n + 1 = n" by simp
  have "x + 1 = n * (x div n) + (x mod n + 1)" by simp
  with r have e: "x + 1 = n * (x div n + 1) + 0" by (simp add: distrib_left)
  have d: "(x + 1) div n = x div n + 1"
    by (rule int_div_pos_eq [OF e]) (use assms in simp_all)
  have m: "(x + 1) mod n = 0"
    by (rule int_mod_pos_eq [OF e]) (use assms in simp_all)
  from d m show ?thesis by simp
qed

lemma mod_shift:
  "(y - 1968) mod 4 = y mod 4" "(y - 1900) mod 100 = y mod 100" "(y - 1600) mod 400 = y mod 400"
  for y :: int
proof -
  have "(y + (- 492) * 4) mod 4 = y mod 4" by (rule mod_mult_self1)
  then show "(y - 1968) mod 4 = y mod 4" by simp
  have "(y + (- 19) * 100) mod 100 = y mod 100" by (rule mod_mult_self1)
  then show "(y - 1900) mod 100 = y mod 100" by simp
  have "(y + (- 4) * 400) mod 400 = y mod 400" by (rule mod_mult_self1)
  then show "(y - 1600) mod 400 = y mod 400" by simp
qed

lemma mod_100_4: "y mod 100 = 0 \<Longrightarrow> y mod 4 = 0" for y :: int
proof -
  assume "y mod 100 = 0"
  then have "100 dvd y" by (simp add: dvd_eq_mod_eq_0)
  moreover have "(4::int) dvd 100" by simp
  ultimately have "4 dvd y" by (rule dvd_trans [rotated])
  then show ?thesis by (simp add: dvd_eq_mod_eq_0)
qed

lemma mod_400_100: "y mod 400 = 0 \<Longrightarrow> y mod 100 = 0" for y :: int
proof -
  assume "y mod 400 = 0"
  then have "400 dvd y" by (simp add: dvd_eq_mod_eq_0)
  moreover have "(100::int) dvd 400" by simp
  ultimately have "100 dvd y" by (rule dvd_trans [rotated])
  then show ?thesis by (simp add: dvd_eq_mod_eq_0)
qed

lemma DayFromYear_succ: "DayFromYear (y + 1) = DayFromYear y + 365 + leap_year y"
proof -
  have a: "(y + 1 - 1969) div 4 = (y - 1969) div 4 + (if y mod 4 = 0 then 1 else 0)"
    using div_succ [of 4 "y - 1969"] mod_shift(1) [of y] by (simp add: algebra_simps)
  have b: "(y + 1 - 1901) div 100 = (y - 1901) div 100 + (if y mod 100 = 0 then 1 else 0)"
    using div_succ [of 100 "y - 1901"] mod_shift(2) [of y] by (simp add: algebra_simps)
  have c: "(y + 1 - 1601) div 400 = (y - 1601) div 400 + (if y mod 400 = 0 then 1 else 0)"
    using div_succ [of 400 "y - 1601"] mod_shift(3) [of y] by (simp add: algebra_simps)
  have l: "leap_year y = (if y mod 4 = 0 then 1 else 0) - (if y mod 100 = 0 then 1 else 0)
             + (if y mod 400 = 0 then 1 else 0)"
    using mod_100_4 [of y] mod_400_100 [of y] by (auto simp: leap_year_def)
  have lin: "365 * (y + 1 - 1970) + (A + a) - (B + b) + (C + c)
               = 365 * (y - 1970) + A - B + C + 365 + (a - b + c)" for A B C a b c :: int
    by (simp add: algebra_simps)
  show ?thesis unfolding DayFromYear_def a b c l by (rule lin)
qed

lemma InLeapYear_leap: "InLeapYear t = leap_year (YearFromTime t)"
  by (simp add: InLeapYear_def leap_year_def Let_def)

lemma DayWithinYear_upper: "DayWithinYear t \<le> 364 + InLeapYear t"
  using YearFromTime_spec [of t] DayFromYear_succ [of "YearFromTime t"]
  by (simp add: DayWithinYear_def InLeapYear_leap)

lemma date_of_day_upper:
  assumes "0 \<le> l" "l \<le> 1" "0 \<le> d" "d \<le> 364 + l"
  shows "date_of_day d l \<le> 31"
  using assms by (auto simp: month_of_day_def date_of_day_def Let_def split: if_splits)

lemma month_start_date: "month_start (month_of_day d l) l + date_of_day d l - 1 = d"
  by (simp add: month_start_def month_of_day_def date_of_day_def Let_def)

lemma MakeDay_fields:
  "MakeDay (YearFromTime t) (MonthFromTime t) (DateFromTime t) = Day t"
  using month_start_date [of "DayWithinYear t" "InLeapYear t"]
  by (simp add: MakeDay_def MonthFromTime_def DateFromTime_def InLeapYear_leap DayWithinYear_def)

lemma MakeDate_fields:
  "MakeDate (Day t) (MakeTime (HourFromTime t) (MinFromTime t) (SecFromTime t) (msFromTime t)) = t"
proof -
  have d1: "t div 60000 = t div 1000 div 60"
    using zdiv_zmult2_eq [of 60 t 1000] by simp
  have d2: "t div 3600000 = t div 60000 div 60"
    using zdiv_zmult2_eq [of 60 t 60000] by simp
  have d3: "t div 86400000 = t div 3600000 div 24"
    using zdiv_zmult2_eq [of 24 t 3600000] by simp
  have a: "t = 1000 * (t div 1000) + t mod 1000" by simp
  have b: "t div 1000 = 60 * (t div 60000) + t div 1000 mod 60" unfolding d1 by simp
  have c: "t div 60000 = 60 * (t div 3600000) + t div 60000 mod 60" unfolding d2 by simp
  have d: "t div 3600000 = 24 * (t div 86400000) + t div 3600000 mod 24" unfolding d3 by simp
  have lin: "q4 * 86400000 + (r4 * 3600000 + r3 * 60000 + r2 * 1000 + r1) = x"
    if "x = 1000 * q1 + r1" "q1 = 60 * q2 + r2" "q2 = 60 * q3 + r3" "q3 = 24 * q4 + r4"
    for x q1 q2 q3 q4 r1 r2 r3 r4 :: int
    using that by simp
  show ?thesis
    unfolding MakeDate_def MakeTime_def Day_def msPerDay_def HourFromTime_def MinFromTime_def
      SecFromTime_def msFromTime_def
    by (rule lin [OF a b c d])
qed

lemma YearFromTime_valid:
  assumes "valid_time t"
  shows "- 999999 \<le> YearFromTime t \<and> YearFromTime t \<le> 999999"
proof -
  from assms have "(- 8640000000000000) div 86400000 \<le> t div 86400000"
    by (intro zdiv_mono1) (simp_all add: valid_time_def)
  then have lo: "- 100000000 \<le> Day t" by (simp add: Day_def msPerDay_def)
  from assms have "t div 86400000 \<le> 8640000000000000 div 86400000"
    by (intro zdiv_mono1) (simp_all add: valid_time_def)
  then have hi: "Day t \<le> 100000000" by (simp add: Day_def msPerDay_def)
  have y0: "DayFromYear (- 999999) < - 100000000" and y1: "100000000 < DayFromYear 999999"
    by (simp_all add: DayFromYear_def)
  have "- 999999 \<le> YearFromTime t"
  proof (rule ccontr)
    assume "\<not> - 999999 \<le> YearFromTime t"
    then have "YearFromTime t + 1 \<le> - 999999" by simp
    from DayFromYear_mono [OF this] YearFromTime_spec [of t] lo y0 show False by simp
  qed
  moreover have "YearFromTime t \<le> 999999"
  proof (rule ccontr)
    assume "\<not> YearFromTime t \<le> 999999"
    then have "999999 \<le> YearFromTime t" by simp
    from DayFromYear_mono [OF this] YearFromTime_spec [of t] hi y1 show False by simp
  qed
  ultimately show ?thesis by simp
qed

lemma parse_fields_toISOString:
  assumes "valid_time t"
  shows "parse_fields (YearFromTime t)
           (''-'' @ pad 2 (nat (MonthFromTime t + 1)) @ ''-''
             @ pad 2 (nat (DateFromTime t)) @ ''T'' @ pad 2 (nat (HourFromTime t)) @ '':''
             @ pad 2 (nat (MinFromTime t)) @ '':'' @ pad 2 (nat (SecFromTime t)) @ ''.''
             @ pad 3 (nat (msFromTime t)) @ ''Z'') = Some t"
proof -
  note b = field_bounds [of t]
  have du: "DateFromTime t \<le> 31"
    using date_of_day_upper [of "InLeapYear t" "DayWithinYear t"] InLeapYear_bounds [of t]
      DayWithinYear_bounds [of t] DayWithinYear_upper [of t]
    by (simp add: DateFromTime_def)
  have n: "nat (MonthFromTime t + 1) < 10 ^ 2" "nat (DateFromTime t) < 10 ^ 2"
    "nat (HourFromTime t) < 10 ^ 2" "nat (MinFromTime t) < 10 ^ 2" "nat (SecFromTime t) < 10 ^ 2"
    "nat (msFromTime t) < 10 ^ 3"
    using b by (simp_all, arith+)
  have r: "1 \<le> nat (MonthFromTime t + 1)" "nat (MonthFromTime t + 1) \<le> 12"
    "1 \<le> nat (DateFromTime t)" "nat (DateFromTime t) \<le> 31"
    "nat (MinFromTime t) \<le> 59" "nat (SecFromTime t) \<le> 59" "nat (HourFromTime t) \<le> 23"
    using b du by arith+
  have i: "int (nat (MonthFromTime t + 1)) - 1 = MonthFromTime t"
    "int (nat (DateFromTime t)) = DateFromTime t" "int (nat (HourFromTime t)) = HourFromTime t"
    "int (nat (MinFromTime t)) = MinFromTime t" "int (nat (SecFromTime t)) = SecFromTime t"
    "int (nat (msFromTime t)) = msFromTime t"
    using b by simp_all
  have m: "MakeDate (MakeDay (YearFromTime t) (int (nat (MonthFromTime t + 1)) - 1)
               (int (nat (DateFromTime t))))
             (MakeTime (int (nat (HourFromTime t))) (int (nat (MinFromTime t)))
               (int (nat (SecFromTime t))) (int (nat (msFromTime t)))) = t"
    unfolding i by (simp only: MakeDay_fields MakeDate_fields)
  have ok: "([] = ([]::string) \<and> 1 \<le> nat (MonthFromTime t + 1) \<and> nat (MonthFromTime t + 1) \<le> 12
      \<and> 1 \<le> nat (DateFromTime t) \<and> nat (DateFromTime t) \<le> 31
      \<and> nat (MinFromTime t) \<le> 59 \<and> nat (SecFromTime t) \<le> 59
      \<and> (nat (HourFromTime t) \<le> 23 \<or> (nat (HourFromTime t) = 24 \<and> nat (MinFromTime t) = 0
           \<and> nat (SecFromTime t) = 0 \<and> nat (msFromTime t) = 0))) = True"
    using r by (simp only: simp_thms)
  show ?thesis
    unfolding parse_fields_def
    by (simp only: append_Cons append_Nil expect_Cons take_num_pad [OF n(1)] take_num_pad [OF n(2)]
        take_num_pad [OF n(3)] take_num_pad [OF n(4)] take_num_pad [OF n(5)] take_num_pad [OF n(6)]
        bind.bind_lunit prod.case ok if_True Let_def m assms)
qed

lemma Date_parse_toISOString:
  assumes "valid_time t"
  shows "Date_parse (toISOString t) = Some t"
proof -
  note y = YearFromTime_valid [OF assms]
  let ?rest = "''-'' @ pad 2 (nat (MonthFromTime t + 1)) @ ''-''
             @ pad 2 (nat (DateFromTime t)) @ ''T'' @ pad 2 (nat (HourFromTime t)) @ '':''
             @ pad 2 (nat (MinFromTime t)) @ '':'' @ pad 2 (nat (SecFromTime t)) @ ''.''
             @ pad 3 (nat (msFromTime t)) @ ''Z''"
  have s: "toISOString t = year_string (YearFromTime t) @ ?rest" by (simp add: toISOString_def)
  have four: "(4::nat) = Suc 3" by simp
  consider "0 \<le> YearFromTime t \<and> YearFromTime t \<le> 9999" | "YearFromTime t < 0"
    | "9999 < YearFromTime t" by linarith
  then show ?thesis
  proof cases
    case 1
    then have "nat (YearFromTime t) < 10000" by arith
    then have n: "nat (YearFromTime t) < 10 ^ 4" by simp
    have e: "expect (CHR ''+'') (pad 4 (nat (YearFromTime t)) @ ?rest) = None"
      "expect (CHR ''-'') (pad 4 (nat (YearFromTime t)) @ ?rest) = None"
      unfolding four by (rule expect_pad)+
    from 1 have i: "int (nat (YearFromTime t)) = YearFromTime t" by simp
    from 1 have ys: "year_string (YearFromTime t) = pad 4 (nat (YearFromTime t))"
      by (simp add: year_string_def)
    show ?thesis
      unfolding s Date_parse_def ys
      by (simp only: e option.case take_num_pad [OF n] bind.bind_lunit
          prod.case i parse_fields_toISOString [OF assms])
  next
    case 2
    with y have "nat \<bar>YearFromTime t\<bar> < 1000000" by arith
    then have n: "nat \<bar>YearFromTime t\<bar> < 10 ^ 6" by simp
    from 2 have i: "- int (nat \<bar>YearFromTime t\<bar>) = YearFromTime t" by simp
    from 2 have ys: "year_string (YearFromTime t) = CHR ''-'' # pad 6 (nat \<bar>YearFromTime t\<bar>)"
      by (simp add: year_string_def)
    have e: "expect (CHR ''+'') ((CHR ''-'' # pad 6 (nat \<bar>YearFromTime t\<bar>)) @ ?rest) = None"
      by (simp add: expect_def)
    have e': "expect (CHR ''-'') ((CHR ''-'' # pad 6 (nat \<bar>YearFromTime t\<bar>)) @ ?rest)
                = Some (pad 6 (nat \<bar>YearFromTime t\<bar>) @ ?rest)"
      by (simp add: expect_def)
    show ?thesis
      unfolding s Date_parse_def ys
      by (simp only: e e' option.case take_num_pad [OF n] bind.bind_lunit prod.case i
          parse_fields_toISOString [OF assms])
  next
    case 3
    with y have "nat \<bar>YearFromTime t\<bar> < 1000000" by arith
    then have n: "nat \<bar>YearFromTime t\<bar> < 10 ^ 6" by simp
    from 3 have i: "int (nat \<bar>YearFromTime t\<bar>) = YearFromTime t" by simp
    from 3 have ys: "year_string (YearFromTime t) = CHR ''+'' # pad 6 (nat \<bar>YearFromTime t\<bar>)"
      by (simp add: year_string_def)
    have e: "expect (CHR ''+'') ((CHR ''+'' # pad 6 (nat \<bar>YearFromTime t\<bar>)) @ ?rest)
                = Some (pad 6 (nat \<bar>YearFromTime t\<bar>) @ ?rest)"
      by (simp add: expect_def)
    show ?thesis
      unfolding s Date_parse_def ys
      by (simp only: e option.case take_num_pad [OF n] bind.bind_lunit prod.case i
          parse_fields_toISOString [OF assms])
  qed
qed

lemma cast_date_toISOString:
  "valid_time t \<Longrightarrow> cast_date (JStr (toISOString t)) = Some (JDate t)"
  by (simp add: Date_parse_toISOString toISOString_not_empty)

section \<open>The reset code on a well-formed store\<close>

lemma find_in_set: "find P xs = Some x \<Longrightarrow> x \<in> set xs \<and> P x"
  by (induction xs) (auto split: if_splits)

lemma find_update_by_id:
  assumes "wf_store ds" and "find P ds = Some u" and "P (apply_update u upd)"
  shows "find P (update_first (matches ''_id'' (get_field u ''_id'')) upd ds) = Some (apply_update u upd)"
  using assms
proof (induction ds)
  case Nil
  then show ?case by simp
next
  case (Cons d ds)
  show ?case
  proof (cases "P d")
    case True
    with Cons.prems have u: "u = d" by simp
    from Cons.prems(1) have "map_of d ''_id'' \<noteq> None" by (auto simp: wf_store_def)
    then have "matches ''_id'' (get_field d ''_id'') d"
      by (auto simp: matches_def get_field_def)
    with u Cons.prems(3) show ?thesis by simp
  next
    case False
    with Cons.prems have f: "find P ds = Some u" by simp
    then have uin: "u \<in> set ds" by (simp add: find_in_set)
    from Cons.prems(1) have wf: "wf_store ds" by (auto simp: wf_store_def)
    from Cons.prems(1) have dist: "map_of d ''_id'' \<notin> (\<lambda>d. map_of d ''_id'') ` set ds"
      and some: "None \<notin> (\<lambda>d. map_of d ''_id'') ` set ds"
      by (simp_all add: wf_store_def)
    from some uin have "map_of u ''_id'' \<noteq> None" by force
    moreover from dist uin have "map_of d ''_id'' \<noteq> map_of u ''_id''" by force
    ultimately have "map_of u ''_id'' \<noteq> None" "map_of d ''_id'' \<noteq> map_of u ''_id''" .
    then have "\<not> matches ''_id'' (get_field u ''_id'') d"
      by (auto simp: matches_def get_field_def)
    with False Cons.IH [OF wf f Cons.prems(3)] show ?thesis by simp
  qed
qed

lemma findOne_after_update:
  assumes "wf_store ds" and "findOne k v ds = Some u" and "k \<notin> fst ` set upd"
  shows "findOne k v (findByIdAndUpdate (get_field u ''_id'') upd ds) = Some (apply_update u upd)"
proof -
  from assms(2) have f: "find (matches k v) ds = Some u" by (simp add: findOne_def)
  then have "matches k v u" by (simp add: find_in_set)
  with assms(3) have "matches k v (apply_update u upd)"
    by (simp add: matches_def map_of_apply_update_other)
  from find_update_by_id [OF assms(1) f this] show ?thesis
    by (simp add: findOne_def findByIdAndUpdate_def updateOne_def)
qed

lemma wf_store_update:
  "''_id'' \<notin> fst ` set upd \<Longrightarrow> wf_store (findByIdAndUpdate i upd ds) = wf_store ds"
  by (simp add: wf_store_def findByIdAndUpdate_def updateOne_def update_first_other_field)

lemma get_field_two:
  "a \<noteq> b \<Longrightarrow> get_field (apply_update d [(a, x), (b, y)]) a = x"
  "get_field (apply_update d [(a, x), (b, y)]) b = y"
  by (simp_all add: get_field_def map_of_apply_update)

lemma generatedOtp_range:
  assumes "0 \<le> r" "r < 1"
  shows "100000 \<le> generatedOtp r \<and> generatedOtp r \<le> 999999"
proof -
  from assms have "100000 \<le> \<lfloor>100000 + r * 900000\<rfloor> \<and> \<lfloor>100000 + r * 900000\<rfloor> < 1000000"
    by (simp add: le_floor_iff floor_less_iff)
  then show ?thesis by (simp add: generatedOtp_def)
qed

lemma char_digits: "list_all (\<lambda>k. char_of (48 + k) = ''0123456789'' ! k) [0..<10]"
  by code_simp

lemma digit_char_nth: "digit_char n = ''0123456789'' ! (n mod 10)"
proof -
  have "n mod 10 \<in> set [0..<10]" by simp
  with char_digits show ?thesis unfolding digit_char_def list_all_iff by blast
qed

lemma digit_char_in: "digit_char n \<in> set ''0123456789''"
proof -
  have "n mod 10 < length ''0123456789''" by simp
  then show ?thesis unfolding digit_char_nth by (rule nth_mem)
qed

lemma set_dec: "set (dec n) \<subseteq> set ''0123456789''"
proof (induction n rule: dec.induct)
  case (1 n)
  show ?case
  proof (cases "n < 10")
    case True
    then show ?thesis using digit_char_in [of n] by (subst dec.simps) simp
  next
    case False
    with "1.IH" digit_char_in [of n] show ?thesis by (subst dec.simps) simp
  qed
qed

lemma length_dec: "10 ^ k \<le> n \<Longrightarrow> n < 10 ^ Suc k \<Longrightarrow> length (dec n) = Suc k"
proof (induction k arbitrary: n)
  case 0
  then show ?case by (subst dec.simps) simp
next
  case (Suc k)
  have "(10::nat) \<le> 10 ^ Suc k" by simp
  then have ten: "10 \<le> n" using Suc.prems(1) by (rule order_trans)
  from Suc.prems have "10 ^ k \<le> n div 10" "n div 10 < 10 ^ Suc k"
    by (simp_all add: less_eq_div_iff_mult_less_eq div_less_iff_less_mult mult.commute)
  from Suc.IH [OF this] ten show ?case by (subst dec.simps) simp
qed

lemma length_dec_six:
  assumes "100000 \<le> n" "n \<le> 999999"
  shows "length (dec n) = 6"
  using length_dec [of 5 n] assms by simp

lemma pad_2: "pad 2 n = [digit_char (n div 10), digit_char n]"
  by (simp add: numeral_2_eq_2)

lemma pad_3: "pad 3 n = [digit_char (n div 10 div 10), digit_char (n div 10), digit_char n]"
  by (simp add: numeral_3_eq_3)

lemma pad_4:
  "pad 4 n = [digit_char (n div 10 div 10 div 10), digit_char (n div 10 div 10),
              digit_char (n div 10), digit_char n]"
proof -
  have four: "(4::nat) = Suc (Suc (Suc (Suc 0)))" by simp
  show ?thesis by (subst four) simp
qed

lemma toISOString_example: "toISOString 1793610061123 = ''2026-11-02T09:01:01.123Z''"
  by (simp add: toISOString_def year_string_def YearFromTime_def Day_def msPerDay_def year_up.simps
      DayFromYear_def MonthFromTime_def DateFromTime_def month_of_day_def date_of_day_def
      DayWithinYear_def InLeapYear_def HourFromTime_def MinFromTime_def SecFromTime_def
      msFromTime_def pad_2 pad_3 pad_4 digit_char_nth)

lemmas iso_eval = toISOString_def year_string_def YearFromTime_def Day_def msPerDay_def year_up.simps
  DayFromYear_def MonthFromTime_def DateFromTime_def month_of_day_def date_of_day_def
  DayWithinYear_def InLeapYear_def HourFromTime_def MinFromTime_def SecFromTime_def
  msFromTime_def pad_2 pad_3 pad_4 digit_char_nth

lemma iso_expiry: "toISOString 1793613661123 = ''2026-11-02T10:01:01.123Z''"
  by (simp add: iso_eval)

lemma Date_parse_example: "Date_parse ''2026-11-02T10:01:01.123Z'' = Some 1793613661123"
proof -
  have "valid_time 1793613661123" by (simp add: valid_time_def)
  from Date_parse_toISOString [OF this] show ?thesis by (simp only: iso_expiry)
qed

lemma otp_half: "dec_int (generatedOtp (1 / 2)) = ''550000''"
  by (simp add: generatedOtp_def dec_int_def dec.simps digit_char_nth)

lemma cast_expiry_example:
  "cast_date (JStr (toISOString 1793613661123)) = Some (JDate 1793613661123)"
  by (rule cast_date_toISOString) (simp add: valid_time_def)

lemma alice_otp_requested_users:
  "users alice_otp_requested =
     [[(''_id'', JStr ''u1''), (''name'', JStr ''Alice''), (''email'', JStr ''alice@x.com''),
       (''password'', JStr ''salt$secret123''), (''verify_email'', JBool False),
       (''status'', JStr ''Active''), (''role'', JStr ''USER''),
       (''forgot_password_otp'', JStr ''550000''),
       (''forgot_password_expiry'', JDate 1793613661123)]]"
  by (simp add: alice_otp_requested_def forgotPassword_def alice_registered_users findOne_def
      matches_def valid_time_def Let_def sendEmail_def findByIdAndUpdate_def updateOne_def
      get_field_def apply_update_def otp_half cast_expiry_example del: cast_date.simps)

lemma alice_first_verification:
  "verifyForgotPasswordOtp 1793610062000 (JStr ''alice@x.com'') (JStr ''550000'') alice_otp_requested
     = (Inr True, alice_otp_verified)"
  by (simp add: alice_otp_verified_def verifyForgotPasswordOtp_def alice_otp_requested_users
      findOne_def matches_def get_field_def)

lemma alice_otp_verified_users:
  "users alice_otp_verified =
     [[(''_id'', JStr ''u1''), (''name'', JStr ''Alice''), (''email'', JStr ''alice@x.com''),
       (''password'', JStr ''salt$secret123''), (''verify_email'', JBool False),
       (''status'', JStr ''Active''), (''role'', JStr ''USER''),
       (''forgot_password_otp'', JStr []), (''forgot_password_expiry'', JNull)]]"
  by (simp add: alice_otp_verified_def verifyForgotPasswordOtp_def alice_otp_requested_users
      findOne_def matches_def get_field_def findByIdAndUpdate_def updateOne_def
      apply_update_def)

lemma forgotPassword_Inr:
  assumes "forgotPassword now r email st = (Inr ok, st')"
  shows "\<exists>u. findOne ''email'' email (users st) = Some u
           \<and> users st' = findByIdAndUpdate (get_field u ''_id'')
                [(''forgot_password_otp'', JStr (dec_int (generatedOtp r))),
                 (''forgot_password_expiry'', JDate (now + 3600000))] (users st)"
proof -
  from assms have t: "truthy email" by (auto simp: forgotPassword_def split: if_splits)
  obtain u where u: "findOne ''email'' email (users st) = Some u"
    using assms t by (cases "findOne ''email'' email (users st)") (simp_all add: forgotPassword_def)
  have v: "valid_time (now + 3600000)"
    using assms t u by (cases "valid_time (now + 3600000)") (simp_all add: forgotPassword_def Let_def)
  note c = cast_date_toISOString [OF v]
  from assms t u v show ?thesis
    by (auto simp: forgotPassword_def Let_def sendEmail_def c simp del: cast_date.simps)
qed

lemma forgotPassword_Inl:
  "fst (forgotPassword now r email st) = Inl err \<Longrightarrow> snd (forgotPassword now r email st) = st"
  by (auto simp: forgotPassword_def Let_def split: option.splits if_splits)

lemma forgotPassword_then_find:
  assumes "wf_store (users st)" and "forgotPassword t0 r email st = (Inr ok, st1)"
  shows "truthy email \<and> wf_store (users st1)
         \<and> (\<exists>u1. findOne ''email'' email (users st1) = Some u1
               \<and> get_field u1 ''forgot_password_otp'' = JStr (dec_int (generatedOtp r))
               \<and> get_field u1 ''forgot_password_expiry'' = JDate (t0 + 3600000))"
proof -
  let ?upd = "[(''forgot_password_otp'', JStr (dec_int (generatedOtp r))),
               (''forgot_password_expiry'', JDate (t0 + 3600000))]"
  from assms(2) have te: "truthy email" by (auto simp: forgotPassword_def split: if_splits)
  from forgotPassword_Inr [OF assms(2)] obtain u where
    u: "findOne ''email'' email (users st) = Some u"
    and st1: "users st1 = findByIdAndUpdate (get_field u ''_id'') ?upd (users st)" by blast
  have f1: "findOne ''email'' email (users st1) = Some (apply_update u ?upd)"
    unfolding st1 by (rule findOne_after_update [OF assms(1) u]) simp
  have wf1: "wf_store (users st1)"
    unfolding st1 using assms(1) by (simp add: wf_store_update)
  have g1: "get_field (apply_update u ?upd) ''forgot_password_otp'' = JStr (dec_int (generatedOtp r))"
    "get_field (apply_update u ?upd) ''forgot_password_expiry'' = JDate (t0 + 3600000)"
    by (simp_all add: get_field_two)
  from te wf1 f1 g1 show ?thesis by blast
qed

lemma verify_expired:
  assumes "truthy email" "truthy otp" "findOne ''email'' email (users st) = Some u"
    and "lt_iso (get_field u ''forgot_password_expiry'') (toISOString now)"
  shows "verifyForgotPasswordOtp now email otp st = (Inl Expired, st)"
  using assms by (simp add: verifyForgotPasswordOtp_def Expired_def createError_def)

lemma verify_invalid:
  assumes "truthy email" "truthy otp" "findOne ''email'' email (users st) = Some u"
    and "\<not> lt_iso (get_field u ''forgot_password_expiry'') (toISOString now)"
    and "otp \<noteq> get_field u ''forgot_password_otp''"
  shows "verifyForgotPasswordOtp now email otp st = (Inl InvalidOtp, st)"
  using assms by (simp add: verifyForgotPasswordOtp_def InvalidOtp_def createError_def)

lemma verify_ok:
  assumes "truthy email" "truthy otp" "findOne ''email'' email (users st) = Some u"
    and "\<not> lt_iso (get_field u ''forgot_password_expiry'') (toISOString now)"
    and "otp = get_field u ''forgot_password_otp''"
  shows "verifyForgotPasswordOtp now email otp st =
           (Inr True, st\<lparr>users := findByIdAndUpdate (get_field u ''_id'')
              [(''forgot_password_otp'', JStr []), (''forgot_password_expiry'', JNull)] (users st)\<rparr>)"
  using assms by (simp add: verifyForgotPasswordOtp_def)

lemma verify_Inr:
  assumes "verifyForgotPasswordOtp now email otp st = (Inr ok, st')"
  shows "\<exists>u. findOne ''email'' email (users st) = Some u
           \<and> users st' = findByIdAndUpdate (get_field u ''_id'')
                [(''forgot_password_otp'', JStr []), (''forgot_password_expiry'', JNull)] (users st)"
  using assms by (auto simp: verifyForgotPasswordOtp_def Let_def split: option.splits if_splits)

lemma verify_Inl:
  "fst (verifyForgotPasswordOtp now email otp st) = Inl err \<Longrightarrow>
   snd (verifyForgotPasswordOtp now email otp st) = st"
  by (auto simp: verifyForgotPasswordOtp_def Let_def split: option.splits if_splits)

lemma alice_forgotPassword:
  "forgotPassword 1793610061123 (1 / 2) (JStr ''alice@x.com'') alice_registered
     = (Inr True, alice_otp_requested)"
  by (simp add: alice_otp_requested_def forgotPassword_def alice_registered_users findOne_def
      matches_def valid_time_def Let_def cast_expiry_example del: cast_date.simps)

lemma wf_alice_registered: "wf_store (users alice_registered)"
  by (simp add: wf_store_def alice_registered_users)

lemma wf_alice_otp_requested: "wf_store (users alice_otp_requested)"
  by (simp add: wf_store_def alice_otp_requested_users)

lemma alice_otp_requested_find:
  "findOne ''email'' (JStr ''alice@x.com'') (users alice_otp_requested)
     = Some (hd (users alice_otp_requested))"
  by (simp add: alice_otp_requested_users findOne_def matches_def)

lemma otp_invariant_alice: "otp_invariant alice_registered"
  by (simp add: otp_invariant_def alice_registered_users otp_consistent_def get_field_def)

lemma otp_invariant_alice_requested: "otp_invariant alice_otp_requested"
  by (simp add: otp_invariant_def alice_otp_requested_users otp_consistent_def get_field_def)

section \<open>Operations that leave the reset fields alone\<close>

lemma otp_fields_update_first:
  "''forgot_password_otp'' \<notin> fst ` set upd \<Longrightarrow> ''forgot_password_expiry'' \<notin> fst ` set upd \<Longrightarrow>
   map otp_fields (update_first P upd ds) = map otp_fields ds"
  by (induction ds) (simp_all add: otp_fields_def map_of_apply_update_other)

lemma otp_fields_updateOne:
  "''forgot_password_otp'' \<notin> fst ` set upd \<Longrightarrow> ''forgot_password_expiry'' \<notin> fst ` set upd \<Longrightarrow>
   map otp_fields (updateOne k v upd ds) = map otp_fields ds"
  by (simp add: updateOne_def otp_fields_update_first)

lemma take_same_length: "length xs = length ys \<Longrightarrow> take (length ys) xs = xs"
  by simp

lemma frame_same:
  "map otp_fields xs = map otp_fields ys \<Longrightarrow> map otp_fields (take (length ys) xs) = map otp_fields ys"
proof -
  assume a: "map otp_fields xs = map otp_fields ys"
  then have "length xs = length ys" by (rule map_eq_imp_length_eq)
  with a show ?thesis by simp
qed

lemma frame_registerUser:
  "map otp_fields (take (length (users st)) (users (snd (registerUser e i salt name email password st))))
     = map otp_fields (users st)"
  by (auto simp: registerUser_def Let_def sendEmail_def split: option.splits sum.splits)

lemma frame_loginUser:
  "map otp_fields (take (length (users st)) (users (snd (loginUser e now email password st))))
     = map otp_fields (users st)"
  by (rule frame_same)
    (auto simp: loginUser_def Let_def genertedRefreshToken_def findByIdAndUpdate_def
      otp_fields_updateOne split: option.splits sum.splits)

lemma frame_verifyEmail:
  "map otp_fields (take (length (users st)) (users (snd (verifyEmail code st))))
     = map otp_fields (users st)"
  by (rule frame_same) (auto simp: verifyEmail_def otp_fields_updateOne split: option.splits)

lemma frame_resetPassword:
  "map otp_fields (take (length (users st))
      (users (snd (resetPassword e salt email newPassword confirmPassword st))))
     = map otp_fields (users st)"
  by (rule frame_same)
    (auto simp: resetPassword_def findByIdAndUpdate_def otp_fields_updateOne
      split: option.splits sum.splits)

lemma frame_updateUserDetails:
  "map otp_fields (take (length (users st)) (users (snd (updateUserDetails e salt userId updates st))))
     = map otp_fields (users st)"
proof (cases "build_updateData e salt updates")
  case (Inl err)
  then show ?thesis by (simp add: updateUserDetails_def)
next
  case (Inr ud)
  from keys_build_updateData [OF Inr]
  have "''forgot_password_otp'' \<notin> fst ` set ud" "''forgot_password_expiry'' \<notin> fst ` set ud"
    by auto
  with Inr show ?thesis
    by (intro frame_same) (simp add: updateUserDetails_def otp_fields_updateOne)
qed

section \<open>Claims\<close>

text \<open>
  C1. The claim: whenever \<^verbatim>\<open>registerUser\<close> succeeds, the value returned to the caller
  has neither the password (hash) field nor the refresh-token field. The code returns
  \<^verbatim>\<open>savedUser\<close> as saved: registering Alice on the empty store returns a document that
  has a \<^verbatim>\<open>password\<close> field holding the hash of her password.
\<close>

theorem registerUser_returns_password_hash:
  "\<exists>u. fst (registerUser e (JStr ''u1'') ''salt'' (JStr ''Alice'') (JStr ''alice@x.com'')
               (JStr ''secret123'') empty_state) = Inr u
       \<and> has_field u ''password''
       \<and> get_field u ''password'' = JStr (bcrypt_hash_fn e ''secret123'' ''salt'')"
  by (simp add: registerUser_def empty_state_def findOne_def bcrypt_hash_def
      schema_defaults_def sendEmail_def has_field_def get_field_def Let_def)

text \<open>C1 with the worked environment: the hash comes back to the caller.\<close>

theorem registerUser_returns_password_hash_witness:
  "\<exists>u. fst (registerUser demo_env (JStr ''u1'') ''salt'' (JStr ''Alice'') (JStr ''alice@x.com'')
               (JStr ''secret123'') empty_state) = Inr u
       \<and> has_field u ''password''
       \<and> get_field u ''password'' = JStr ''salt$secret123''"
  using registerUser_returns_password_hash [of demo_env] by (simp add: demo_env_def)

text \<open>
  C2. For every user whose OTP and expiry were set by \<^verbatim>\<open>forgotPassword\<close> on a
  well-formed store: \<^verbatim>\<open>verifyForgotPasswordOtp\<close> with the generated OTP at a time not
  after the expiry succeeds and clears both fields (the stored OTP becomes the empty
  string and the stored expiry null); every later call with that same OTP, at whatever
  time, fails with InvalidOtp and leaves the state as it is (one-time use).
\<close>

theorem otp_round_trip:
  assumes "wf_store (users st)"
    and "forgotPassword t0 r email st = (Inr ok, st1)"
    and "t1 \<le> t0 + 3600000"
  shows "\<exists>st2 u2. verifyForgotPasswordOtp t1 email (JStr (dec_int (generatedOtp r))) st1 = (Inr True, st2)
           \<and> findOne ''email'' email (users st2) = Some u2
           \<and> get_field u2 ''forgot_password_otp'' = JStr []
           \<and> get_field u2 ''forgot_password_expiry'' = JNull
           \<and> (\<forall>t2. verifyForgotPasswordOtp t2 email (JStr (dec_int (generatedOtp r))) st2
                  = (Inl InvalidOtp, st2))"
proof -
  let ?otp = "JStr (dec_int (generatedOtp r))"
  let ?clr = "[(''forgot_password_otp'', JStr []), (''forgot_password_expiry'', JNull)]"
  from forgotPassword_then_find [OF assms(1,2)] obtain u1 where
    te: "truthy email" and wf1: "wf_store (users st1)"
    and f1: "findOne ''email'' email (users st1) = Some u1"
    and o1: "get_field u1 ''forgot_password_otp'' = ?otp"
    and e1: "get_field u1 ''forgot_password_expiry'' = JDate (t0 + 3600000)" by blast
  have to: "truthy ?otp" by (simp add: dec_int_not_empty)
  have ne: "\<not> lt_iso (get_field u1 ''forgot_password_expiry'') (toISOString t1)"
    by (simp add: e1)
  let ?st2 = "st1\<lparr>users := findByIdAndUpdate (get_field u1 ''_id'') ?clr (users st1)\<rparr>"
  have v1: "verifyForgotPasswordOtp t1 email ?otp st1 = (Inr True, ?st2)"
    by (rule verify_ok [OF te to f1 ne]) (simp add: o1)
  let ?u2 = "apply_update u1 ?clr"
  have f2: "findOne ''email'' email (users ?st2) = Some ?u2"
    using findOne_after_update [OF wf1 f1, of ?clr] by simp
  have g2: "get_field ?u2 ''forgot_password_otp'' = JStr []"
    "get_field ?u2 ''forgot_password_expiry'' = JNull"
    by (simp_all add: get_field_two)
  have v2: "verifyForgotPasswordOtp t2 email ?otp ?st2 = (Inl InvalidOtp, ?st2)" for t2
    by (rule verify_invalid [OF te to f2]) (simp_all add: g2 dec_int_not_empty)
  from v1 f2 g2 v2 show ?thesis by blast
qed

text \<open>
  C2 on the worked instance: Alice verifies one second after her request, and tries the
  same code again one second later.
\<close>

theorem otp_round_trip_witness:
  "wf_store (users alice_registered)
   \<and> forgotPassword 1793610061123 (1 / 2) (JStr ''alice@x.com'') alice_registered
        = (Inr True, alice_otp_requested)
   \<and> (1793610062000 :: int) \<le> 1793610061123 + 3600000
   \<and> (\<exists>st2. verifyForgotPasswordOtp 1793610062000 (JStr ''alice@x.com'')
               (JStr (dec_int (generatedOtp (1 / 2)))) alice_otp_requested = (Inr True, st2)
          \<and> verifyForgotPasswordOtp 1793610063000 (JStr ''alice@x.com'')
               (JStr (dec_int (generatedOtp (1 / 2)))) st2 = (Inl InvalidOtp, st2))"
proof -
  have r: "(1793610062000 :: int) \<le> 1793610061123 + 3600000" by simp
  from otp_round_trip [OF wf_alice_registered alice_forgotPassword r]
    wf_alice_registered alice_forgotPassword r
  show ?thesis by blast
qed

text \<open>
  C3. The claim: a call of \<^verbatim>\<open>verifyForgotPasswordOtp\<close> made after the stored expiry
  has passed fails with Expired, also when the supplied OTP is the stored one. The code
  checks the expiry by \<^verbatim>\<open>user.forgot_password_expiry < currentTime\<close>, where
  \<^verbatim>\<open>currentTime\<close> is the ISO text of the current time and the stored expiry is a date.
  A date and a text are compared as numbers, the number of the text is NaN, and the
  comparison is false at every time. So the check never fires: for every user whose OTP
  and expiry were set by \<^verbatim>\<open>forgotPassword\<close> on a well-formed store, the call with the
  generated OTP made after the expiry succeeds instead of failing with Expired.
\<close>

theorem verifyForgotPasswordOtp_accepts_expired:
  assumes "wf_store (users st)"
    and "forgotPassword t0 r email st = (Inr ok, st1)"
    and "t0 + 3600000 < now"
  shows "\<exists>u1. findOne ''email'' email (users st1) = Some u1
           \<and> get_field u1 ''forgot_password_expiry'' = JDate (t0 + 3600000)
           \<and> get_field u1 ''forgot_password_otp'' = JStr (dec_int (generatedOtp r))
           \<and> fst (verifyForgotPasswordOtp now email (JStr (dec_int (generatedOtp r))) st1) = Inr True
           \<and> fst (verifyForgotPasswordOtp now email (JStr (dec_int (generatedOtp r))) st1) \<noteq> Inl Expired"
proof -
  let ?otp = "JStr (dec_int (generatedOtp r))"
  from forgotPassword_then_find [OF assms(1,2)] obtain u1 where
    te: "truthy email"
    and f1: "findOne ''email'' email (users st1) = Some u1"
    and o1: "get_field u1 ''forgot_password_otp'' = ?otp"
    and e1: "get_field u1 ''forgot_password_expiry'' = JDate (t0 + 3600000)" by blast
  have to: "truthy ?otp" by (simp add: dec_int_not_empty)
  have ne: "\<not> lt_iso (get_field u1 ''forgot_password_expiry'') (toISOString now)"
    by (simp add: e1)
  have "fst (verifyForgotPasswordOtp now email ?otp st1) = Inr True"
    using verify_ok [OF te to f1 ne] by (simp add: o1)
  with f1 o1 e1 show ?thesis by simp
qed

text \<open>
  C3 on the worked instance: Alice's code expires at 2026-11-02T10:01:01.123Z; the call
  with her code at 10:01:02.000Z, after the expiry, returns true.
\<close>

theorem verifyForgotPasswordOtp_accepts_expired_witness:
  "wf_store (users alice_registered)
   \<and> forgotPassword 1793610061123 (1 / 2) (JStr ''alice@x.com'') alice_registered
        = (Inr True, alice_otp_requested)
   \<and> (1793610061123 :: int) + 3600000 < 1793613662000
   \<and> get_field (hd (users alice_otp_requested)) ''forgot_password_expiry'' = JDate 1793613661123
   \<and> get_field (hd (users alice_otp_requested)) ''forgot_password_otp'' = JStr ''550000''
   \<and> fst (verifyForgotPasswordOtp 1793613662000 (JStr ''alice@x.com'') (JStr ''550000'')
             alice_otp_requested) = Inr True
   \<and> fst (verifyForgotPasswordOtp 1793613662000 (JStr ''alice@x.com'') (JStr ''550000'')
             alice_otp_requested) \<noteq> Inl Expired"
proof -
  have r: "(1793610061123 :: int) + 3600000 < 1793613662000" by simp
  have g: "get_field (hd (users alice_otp_requested)) ''forgot_password_expiry'' = JDate 1793613661123"
    "get_field (hd (users alice_otp_requested)) ''forgot_password_otp'' = JStr ''550000''"
    by (simp_all add: alice_otp_requested_users get_field_def)
  from verifyForgotPasswordOtp_accepts_expired [OF wf_alice_registered alice_forgotPassword r]
  have v: "fst (verifyForgotPasswordOtp 1793613662000 (JStr ''alice@x.com'')
                  (JStr (dec_int (generatedOtp (1 / 2)))) alice_otp_requested) = Inr True
           \<and> fst (verifyForgotPasswordOtp 1793613662000 (JStr ''alice@x.com'')
                  (JStr (dec_int (generatedOtp (1 / 2)))) alice_otp_requested) \<noteq> Inl Expired"
    by blast
  from v wf_alice_registered alice_forgotPassword r g
  show ?thesis by (simp add: otp_half)
qed

text \<open>
  C4. For every user with a stored expiry that has not passed, a call of
  \<^verbatim>\<open>verifyForgotPasswordOtp\<close> with an OTP different from the stored one fails with
  InvalidOtp and returns the state unchanged, so the stored OTP and expiry stay as they
  were. The stored expiry is a date; the statement also holds for an expiry kept as the
  ISO timestamp that \<^verbatim>\<open>forgotPassword\<close> wrote, for times in the years 0 to 9999.
\<close>

theorem verifyForgotPasswordOtp_wrong_otp:
  assumes "truthy email" and "truthy otp"
    and "findOne ''email'' email (users st) = Some u"
    and "get_field u ''forgot_password_expiry'' = JDate expiry
         \<or> (get_field u ''forgot_password_expiry'' = JStr (toISOString expiry)
             \<and> iso_range expiry \<and> iso_range now)"
    and "now \<le> expiry"
    and "otp \<noteq> get_field u ''forgot_password_otp''"
  shows "verifyForgotPasswordOtp now email otp st = (Inl InvalidOtp, st)"
proof -
  have "\<not> lt_iso (get_field u ''forgot_password_expiry'') (toISOString now)"
    using assms(4)
  proof
    assume "get_field u ''forgot_password_expiry'' = JDate expiry"
    then show ?thesis by simp
  next
    assume a: "get_field u ''forgot_password_expiry'' = JStr (toISOString expiry)
                 \<and> iso_range expiry \<and> iso_range now"
    then have "iso_range now" "iso_range expiry" by simp_all
    from this assms(5) have "\<not> toISOString expiry < toISOString now"
      by (rule toISOString_not_less)
    with a show ?thesis by simp
  qed
  with assms(1-3) show ?thesis using assms(6) by (rule verify_invalid)
qed

text \<open>
  C4 on the worked instance: a wrong code one second after the request.
\<close>

theorem verifyForgotPasswordOtp_wrong_otp_witness:
  "truthy (JStr ''alice@x.com'') \<and> truthy (JStr ''123456'')
   \<and> get_field (hd (users alice_otp_requested)) ''forgot_password_expiry'' = JDate 1793613661123
   \<and> (1793610062000 :: int) \<le> 1793613661123
   \<and> JStr ''123456'' \<noteq> get_field (hd (users alice_otp_requested)) ''forgot_password_otp''
   \<and> verifyForgotPasswordOtp 1793610062000 (JStr ''alice@x.com'') (JStr ''123456'')
        alice_otp_requested = (Inl InvalidOtp, alice_otp_requested)"
proof -
  have t: "truthy (JStr ''alice@x.com'')" "truthy (JStr ''123456'')" by simp_all
  have e: "get_field (hd (users alice_otp_requested)) ''forgot_password_expiry'' = JDate 1793613661123"
    by (simp add: alice_otp_requested_users get_field_def)
  have r: "(1793610062000 :: int) \<le> 1793613661123" by simp
  have n: "JStr ''123456'' \<noteq> get_field (hd (users alice_otp_requested)) ''forgot_password_otp''"
    by (simp add: alice_otp_requested_users get_field_def)
  from verifyForgotPasswordOtp_wrong_otp [OF t alice_otp_requested_find disjI1 [OF e] r n] t e r n
  show ?thesis by simp
qed

text \<open>
  C5. The invariant that the forgot-password OTP and its expiry are both present or both
  cleared, on every user, is preserved by every operation of the service. Every
  operation other than \<^verbatim>\<open>forgotPassword\<close> and \<^verbatim>\<open>verifyForgotPasswordOtp\<close> leaves
  both fields of every stored user as they were. A successful \<^verbatim>\<open>forgotPassword\<close> is
  one update of the user found by the email that writes both fields, each with a
  present (truthy) value, and on a well-formed store the user then holds these two
  values. A successful \<^verbatim>\<open>verifyForgotPasswordOtp\<close> is one update of the user found by
  the email that writes both fields, each with a cleared (falsy) value, and on a
  well-formed store the user then holds these two values. A failing call of either
  leaves the state as it was.
\<close>

theorem otp_invariant_preserved:
  assumes "otp_invariant st"
  shows "otp_invariant (run e op st)
         \<and> (\<not> writes_otp op \<longrightarrow>
              map otp_fields (take (length (users st)) (users (run e op st)))
                = map otp_fields (users st))
         \<and> (\<forall>now r email. fst (forgotPassword now r email st) = Inr True \<longrightarrow>
              (\<exists>u a b. findOne ''email'' email (users st) = Some u
                 \<and> users (run e (ForgotPassword now r email) st)
                      = findByIdAndUpdate (get_field u ''_id'')
                          [(''forgot_password_otp'', a), (''forgot_password_expiry'', b)] (users st)
                 \<and> truthy a \<and> truthy b
                 \<and> (wf_store (users st) \<longrightarrow>
                      (\<exists>u'. findOne ''email'' email (users (run e (ForgotPassword now r email) st))
                               = Some u'
                         \<and> get_field u' ''forgot_password_otp'' = a
                         \<and> get_field u' ''forgot_password_expiry'' = b))))
         \<and> (\<forall>now email otp. fst (verifyForgotPasswordOtp now email otp st) = Inr True \<longrightarrow>
              (\<exists>u a b. findOne ''email'' email (users st) = Some u
                 \<and> users (run e (VerifyForgotPasswordOtp now email otp) st)
                      = findByIdAndUpdate (get_field u ''_id'')
                          [(''forgot_password_otp'', a), (''forgot_password_expiry'', b)] (users st)
                 \<and> \<not> truthy a \<and> \<not> truthy b
                 \<and> (wf_store (users st) \<longrightarrow>
                      (\<exists>u'. findOne ''email'' email
                               (users (run e (VerifyForgotPasswordOtp now email otp) st)) = Some u'
                         \<and> get_field u' ''forgot_password_otp'' = a
                         \<and> get_field u' ''forgot_password_expiry'' = b))))
         \<and> (\<forall>now r email err. fst (forgotPassword now r email st) = Inl err \<longrightarrow>
              run e (ForgotPassword now r email) st = st)
         \<and> (\<forall>now email otp err. fst (verifyForgotPasswordOtp now email otp st) = Inl err \<longrightarrow>
              run e (VerifyForgotPasswordOtp now email otp) st = st)"
proof -
  have inv: "otp_invariant (run e op st)"
    using assms
    by (cases op)
      (simp_all add: inv_registerUser inv_loginUser inv_verifyEmail inv_forgotPassword
        inv_verifyForgotPasswordOtp inv_resetPassword inv_updateUserDetails)
  have frame: "\<not> writes_otp op \<longrightarrow>
      map otp_fields (take (length (users st)) (users (run e op st))) = map otp_fields (users st)"
    by (cases op)
      (simp_all add: frame_registerUser frame_loginUser frame_verifyEmail frame_resetPassword
        frame_updateUserDetails)
  have set_both: "\<exists>u a b. findOne ''email'' email (users st) = Some u
        \<and> users (run e (ForgotPassword now r email) st)
             = findByIdAndUpdate (get_field u ''_id'')
                 [(''forgot_password_otp'', a), (''forgot_password_expiry'', b)] (users st)
        \<and> truthy a \<and> truthy b
        \<and> (wf_store (users st) \<longrightarrow>
             (\<exists>u'. findOne ''email'' email (users (run e (ForgotPassword now r email) st)) = Some u'
                \<and> get_field u' ''forgot_password_otp'' = a
                \<and> get_field u' ''forgot_password_expiry'' = b))"
    if s: "fst (forgotPassword now r email st) = Inr True" for now r email
  proof -
    let ?st' = "snd (forgotPassword now r email st)"
    let ?a = "JStr (dec_int (generatedOtp r))"
    let ?b = "JDate (now + 3600000)"
    let ?upd = "[(''forgot_password_otp'', ?a), (''forgot_password_expiry'', ?b)]"
    from s have p: "forgotPassword now r email st = (Inr True, ?st')" by (simp add: prod_eq_iff)
    from forgotPassword_Inr [OF p] obtain u where
      u: "findOne ''email'' email (users st) = Some u"
      and st': "users ?st' = findByIdAndUpdate (get_field u ''_id'') ?upd (users st)" by blast
    have r: "users (run e (ForgotPassword now r email) st)
               = findByIdAndUpdate (get_field u ''_id'') ?upd (users st)"
      using st' by simp
    have t: "truthy ?a" "truthy ?b" by (simp_all add: dec_int_not_empty)
    have w: "\<exists>u'. findOne ''email'' email (users (run e (ForgotPassword now r email) st)) = Some u'
                \<and> get_field u' ''forgot_password_otp'' = ?a
                \<and> get_field u' ''forgot_password_expiry'' = ?b" if wf: "wf_store (users st)"
    proof -
      have "findOne ''email'' email (users (run e (ForgotPassword now r email) st))
              = Some (apply_update u ?upd)"
        unfolding r by (rule findOne_after_update [OF wf u]) simp
      then show ?thesis by (simp add: get_field_two)
    qed
    from u r t w show ?thesis by blast
  qed
  have clear_both: "\<exists>u a b. findOne ''email'' email (users st) = Some u
        \<and> users (run e (VerifyForgotPasswordOtp now email otp) st)
             = findByIdAndUpdate (get_field u ''_id'')
                 [(''forgot_password_otp'', a), (''forgot_password_expiry'', b)] (users st)
        \<and> \<not> truthy a \<and> \<not> truthy b
        \<and> (wf_store (users st) \<longrightarrow>
             (\<exists>u'. findOne ''email'' email
                      (users (run e (VerifyForgotPasswordOtp now email otp) st)) = Some u'
                \<and> get_field u' ''forgot_password_otp'' = a
                \<and> get_field u' ''forgot_password_expiry'' = b))"
    if s: "fst (verifyForgotPasswordOtp now email otp st) = Inr True" for now email otp
  proof -
    let ?st' = "snd (verifyForgotPasswordOtp now email otp st)"
    let ?upd = "[(''forgot_password_otp'', JStr []), (''forgot_password_expiry'', JNull)]"
    from s have p: "verifyForgotPasswordOtp now email otp st = (Inr True, ?st')"
      by (simp add: prod_eq_iff)
    from verify_Inr [OF p] obtain u where
      u: "findOne ''email'' email (users st) = Some u"
      and st': "users ?st' = findByIdAndUpdate (get_field u ''_id'') ?upd (users st)" by blast
    have r: "users (run e (VerifyForgotPasswordOtp now email otp) st)
               = findByIdAndUpdate (get_field u ''_id'') ?upd (users st)"
      using st' by simp
    have t: "\<not> truthy (JStr [])" "\<not> truthy JNull" by simp_all
    have w: "\<exists>u'. findOne ''email'' email
                     (users (run e (VerifyForgotPasswordOtp now email otp) st)) = Some u'
                \<and> get_field u' ''forgot_password_otp'' = JStr []
                \<and> get_field u' ''forgot_password_expiry'' = JNull" if wf: "wf_store (users st)"
    proof -
      have "findOne ''email'' email (users (run e (VerifyForgotPasswordOtp now email otp) st))
              = Some (apply_update u ?upd)"
        unfolding r by (rule findOne_after_update [OF wf u]) simp
      then show ?thesis by (simp add: get_field_two)
    qed
    from u r t w show ?thesis by blast
  qed
  have fail1: "run e (ForgotPassword now r email) st = st"
    if "fst (forgotPassword now r email st) = Inl err" for now r email err
    using that by (simp add: forgotPassword_Inl)
  have fail2: "run e (VerifyForgotPasswordOtp now email otp) st = st"
    if "fst (verifyForgotPasswordOtp now email otp st) = Inl err" for now email otp err
    using that by (simp add: verify_Inl)
  show ?thesis
  proof (intro conjI allI impI)
    show "otp_invariant (run e op st)" by (rule inv)
  next
    assume "\<not> writes_otp op"
    with frame show "map otp_fields (take (length (users st)) (users (run e op st)))
                       = map otp_fields (users st)" by simp
  next
    fix now r email
    assume "fst (forgotPassword now r email st) = Inr True"
    then show "\<exists>u a b. findOne ''email'' email (users st) = Some u
        \<and> users (run e (ForgotPassword now r email) st)
             = findByIdAndUpdate (get_field u ''_id'')
                 [(''forgot_password_otp'', a), (''forgot_password_expiry'', b)] (users st)
        \<and> truthy a \<and> truthy b
        \<and> (wf_store (users st) \<longrightarrow>
             (\<exists>u'. findOne ''email'' email (users (run e (ForgotPassword now r email) st)) = Some u'
                \<and> get_field u' ''forgot_password_otp'' = a
                \<and> get_field u' ''forgot_password_expiry'' = b))"
      by (rule set_both)
  next
    fix now email otp
    assume "fst (verifyForgotPasswordOtp now email otp st) = Inr True"
    then show "\<exists>u a b. findOne ''email'' email (users st) = Some u
        \<and> users (run e (VerifyForgotPasswordOtp now email otp) st)
             = findByIdAndUpdate (get_field u ''_id'')
                 [(''forgot_password_otp'', a), (''forgot_password_expiry'', b)] (users st)
        \<and> \<not> truthy a \<and> \<not> truthy b
        \<and> (wf_store (users st) \<longrightarrow>
             (\<exists>u'. findOne ''email'' email
                      (users (run e (VerifyForgotPasswordOtp now email otp) st)) = Some u'
                \<and> get_field u' ''forgot_password_otp'' = a
                \<and> get_field u' ''forgot_password_expiry'' = b))"
      by (rule clear_both)
  next
    fix now r email err
    assume "fst (forgotPassword now r email st) = Inl err"
    then show "run e (ForgotPassword now r email) st = st" by (rule fail1)
  next
    fix now email otp err
    assume "fst (verifyForgotPasswordOtp now email otp st) = Inl err"
    then show "run e (VerifyForgotPasswordOtp now email otp) st = st" by (rule fail2)
  qed
qed

text \<open>
  C5 on the worked instance. The store after Alice's registration satisfies the
  invariant and holds neither field; her forgot-password request succeeds, keeps the
  invariant and leaves both fields present; her verification then succeeds and leaves
  both fields cleared; a forgot-password request for an unknown email fails and changes
  nothing; and verifying her e-mail leaves both reset fields as they were.
\<close>

theorem otp_invariant_preserved_witness:
  "otp_invariant alice_registered \<and> wf_store (users alice_registered)
   \<and> map otp_fields (users alice_registered) = [(None, None)]
   \<and> otp_invariant (run demo_env (ForgotPassword 1793610061123 (1 / 2) (JStr ''alice@x.com''))
        alice_registered)
   \<and> fst (forgotPassword 1793610061123 (1 / 2) (JStr ''alice@x.com'') alice_registered) = Inr True
   \<and> (\<exists>u'. findOne ''email'' (JStr ''alice@x.com'')
              (users (run demo_env (ForgotPassword 1793610061123 (1 / 2) (JStr ''alice@x.com''))
                 alice_registered)) = Some u'
         \<and> truthy (get_field u' ''forgot_password_otp'')
         \<and> truthy (get_field u' ''forgot_password_expiry''))
   \<and> otp_invariant alice_otp_requested \<and> wf_store (users alice_otp_requested)
   \<and> fst (verifyForgotPasswordOtp 1793610062000 (JStr ''alice@x.com'') (JStr ''550000'')
        alice_otp_requested) = Inr True
   \<and> (\<exists>u'. findOne ''email'' (JStr ''alice@x.com'')
              (users (run demo_env
                 (VerifyForgotPasswordOtp 1793610062000 (JStr ''alice@x.com'') (JStr ''550000''))
                 alice_otp_requested)) = Some u'
         \<and> \<not> truthy (get_field u' ''forgot_password_otp'')
         \<and> \<not> truthy (get_field u' ''forgot_password_expiry''))
   \<and> fst (forgotPassword 1793610061123 (1 / 2) (JStr ''bob@x.com'') alice_registered)
        = Inl (createError ''Email not found'' 400)
   \<and> run demo_env (ForgotPassword 1793610061123 (1 / 2) (JStr ''bob@x.com'')) alice_registered
        = alice_registered
   \<and> \<not> writes_otp (VerifyEmail (JStr ''u1''))
   \<and> map otp_fields (users (run demo_env (VerifyEmail (JStr ''u1'')) alice_otp_requested))
        = map otp_fields (users alice_otp_requested)"
proof -
  note a = otp_invariant_preserved [OF otp_invariant_alice, of demo_env
      "ForgotPassword 1793610061123 (1 / 2) (JStr ''alice@x.com'')"]
  note b = otp_invariant_preserved [OF otp_invariant_alice_requested, of demo_env
      "VerifyEmail (JStr ''u1'')"]
  have s1: "fst (forgotPassword 1793610061123 (1 / 2) (JStr ''alice@x.com'') alice_registered)
              = Inr True"
    by (simp add: alice_forgotPassword)
  have s2: "fst (verifyForgotPasswordOtp 1793610062000 (JStr ''alice@x.com'') (JStr ''550000'')
              alice_otp_requested) = Inr True"
    by (simp add: alice_first_verification)
  have s3: "fst (forgotPassword 1793610061123 (1 / 2) (JStr ''bob@x.com'') alice_registered)
              = Inl (createError ''Email not found'' 400)"
    by (simp add: forgotPassword_def alice_registered_users findOne_def matches_def)
  have n: "map otp_fields (users alice_registered) = [(None, None)]"
    by (simp add: alice_registered_users otp_fields_def)
  have c1: "otp_invariant (run demo_env (ForgotPassword 1793610061123 (1 / 2) (JStr ''alice@x.com''))
        alice_registered)"
    by (rule a [THEN conjunct1])
  from a [THEN conjunct2, THEN conjunct2, THEN conjunct1, rule_format, OF s1]
    wf_alice_registered
  have c2: "\<exists>u'. findOne ''email'' (JStr ''alice@x.com'')
              (users (run demo_env (ForgotPassword 1793610061123 (1 / 2) (JStr ''alice@x.com''))
                 alice_registered)) = Some u'
         \<and> truthy (get_field u' ''forgot_password_otp'')
         \<and> truthy (get_field u' ''forgot_password_expiry'')"
    by blast
  from b [THEN conjunct2, THEN conjunct2, THEN conjunct2, THEN conjunct1, rule_format, OF s2]
    wf_alice_otp_requested
  have c3: "\<exists>u'. findOne ''email'' (JStr ''alice@x.com'')
              (users (run demo_env
                 (VerifyForgotPasswordOtp 1793610062000 (JStr ''alice@x.com'') (JStr ''550000''))
                 alice_otp_requested)) = Some u'
         \<and> \<not> truthy (get_field u' ''forgot_password_otp'')
         \<and> \<not> truthy (get_field u' ''forgot_password_expiry'')"
    by blast
  have c4: "run demo_env (ForgotPassword 1793610061123 (1 / 2) (JStr ''bob@x.com'')) alice_registered
        = alice_registered"
    by (rule a [THEN conjunct2, THEN conjunct2, THEN conjunct2, THEN conjunct2, THEN conjunct1,
          rule_format, OF s3])
  have l: "length (users (run demo_env (VerifyEmail (JStr ''u1'')) alice_otp_requested))
             = length (users alice_otp_requested)"
    by (simp add: verifyEmail_def updateOne_def length_update_first split: option.splits)
  have w: "\<not> writes_otp (VerifyEmail (JStr ''u1''))" by simp
  from b [THEN conjunct2, THEN conjunct1, rule_format, OF w] l
  have c5: "map otp_fields (users (run demo_env (VerifyEmail (JStr ''u1'')) alice_otp_requested))
        = map otp_fields (users alice_otp_requested)"
    by simp
  from otp_invariant_alice wf_alice_registered n c1 s1 c2 otp_invariant_alice_requested
    wf_alice_otp_requested s2 c3 s3 c4 w c5
  show ?thesis by (intro conjI)
qed

text \<open>
  C6. For every email already present in the store (one record holds it), a further
  \<^verbatim>\<open>registerUser\<close> call with that email fails with Conflict and persists nothing: the
  state is returned unchanged, so the store still holds exactly one record for that
  email.
\<close>

theorem registerUser_duplicate_email:
  assumes "truthy name" and "truthy email" and "truthy password"
    and "email_count email st = 1"
  shows "registerUser e i salt name email password st = (Inl Conflict, st)
         \<and> email_count email (snd (registerUser e i salt name email password st)) = 1"
proof -
  from assms(4) have "filter (matches ''email'' email) (users st) \<noteq> []"
    by (auto simp: email_count_def)
  then have "findOne ''email'' email (users st) \<noteq> None"
    by (auto simp: findOne_def find_None_iff filter_empty_conv)
  with assms show ?thesis
    by (auto simp: registerUser_def Conflict_def createError_def)
qed

text \<open>C6 on the worked instance: registering Alice's email a second time.\<close>

theorem registerUser_duplicate_email_witness:
  "truthy (JStr ''Alice'') \<and> truthy (JStr ''alice@x.com'') \<and> truthy (JStr ''other456'')
   \<and> email_count (JStr ''alice@x.com'') alice_registered = 1
   \<and> registerUser demo_env (JStr ''u2'') ''pepr'' (JStr ''Alice'') (JStr ''alice@x.com'')
        (JStr ''other456'') alice_registered = (Inl Conflict, alice_registered)"
proof -
  have c: "email_count (JStr ''alice@x.com'') alice_registered = 1"
    by (simp add: email_count_def alice_registered_users matches_def)
  from c registerUser_duplicate_email [of "JStr ''Alice''" "JStr ''alice@x.com''" "JStr ''other456''"
      alice_registered demo_env "JStr ''u2''" "''pepr''"]
  show ?thesis by simp
qed

text \<open>
  C7. For every stored user id, the result of \<^verbatim>\<open>getUserById\<close> has neither a
  \<^verbatim>\<open>password\<close> field nor a \<^verbatim>\<open>refresh_token\<close> field (every other field is returned
  as stored); for an id with no stored user, \<^verbatim>\<open>getUserById\<close> fails with NotFound.
\<close>

theorem getUserById_redacted:
  "(findById userId (users st) = None \<longrightarrow> getUserById userId st = Inl NotFound) \<and>
   (\<forall>d. findById userId (users st) = Some d \<longrightarrow>
      (\<exists>u. getUserById userId st = Inr u
         \<and> \<not> has_field u ''password'' \<and> \<not> has_field u ''refresh_token''
         \<and> (\<forall>k. k \<noteq> ''password'' \<and> k \<noteq> ''refresh_token'' \<longrightarrow> map_of u k = map_of d k)))"
  by (simp add: getUserById_def NotFound_def createError_def has_field_select_minus
      map_of_select_minus)

text \<open>C7 on the worked instance: the stored id \<^verbatim>\<open>u1\<close> and the unknown id \<^verbatim>\<open>u2\<close>.\<close>

theorem getUserById_redacted_witness:
  "findById (JStr ''u1'') (users alice_registered) \<noteq> None
   \<and> (\<exists>u. getUserById (JStr ''u1'') alice_registered = Inr u
         \<and> \<not> has_field u ''password'' \<and> \<not> has_field u ''refresh_token'')
   \<and> findById (JStr ''u2'') (users alice_registered) = None
   \<and> getUserById (JStr ''u2'') alice_registered = Inl NotFound"
proof -
  have a: "findById (JStr ''u1'') (users alice_registered) \<noteq> None"
    by (simp add: alice_registered_users findById_def findOne_def matches_def)
  have b: "findById (JStr ''u2'') (users alice_registered) = None"
    by (simp add: alice_registered_users findById_def findOne_def matches_def)
  from a b getUserById_redacted [of "JStr ''u1''" alice_registered]
    getUserById_redacted [of "JStr ''u2''" alice_registered]
  show ?thesis by auto
qed

text \<open>
  C8. For every known email on a well-formed store, a successful
  \<^verbatim>\<open>forgotPassword\<close> call (with a draw in [0, 1)) leaves on the user an OTP that is a
  string of six decimal digits, the decimal text of a number between 100000 and 999999,
  and an expiry that is the date of the current time plus 3600000 milliseconds: the
  date read from the ISO timestamp of that time, which is what the code writes.
\<close>

theorem forgotPassword_stores_otp:
  assumes "wf_store (users st)" and "0 \<le> r" and "r < 1"
    and "forgotPassword now r email st = (Inr ok, st')"
  shows "\<exists>u n. findOne ''email'' email (users st') = Some u
           \<and> 100000 \<le> n \<and> n \<le> 999999
           \<and> get_field u ''forgot_password_otp'' = JStr (dec n)
           \<and> length (dec n) = 6 \<and> set (dec n) \<subseteq> set ''0123456789''
           \<and> get_field u ''forgot_password_expiry'' = JDate (now + 3600000)
           \<and> cast_date (JStr (toISOString (now + 3600000))) = Some (JDate (now + 3600000))"
proof -
  from forgotPassword_then_find [OF assms(1,4)] obtain u where
    f: "findOne ''email'' email (users st') = Some u"
    and o: "get_field u ''forgot_password_otp'' = JStr (dec_int (generatedOtp r))"
    and x: "get_field u ''forgot_password_expiry'' = JDate (now + 3600000)" by blast
  from generatedOtp_range [OF assms(2,3)]
  have rng: "100000 \<le> nat (generatedOtp r)" "nat (generatedOtp r) \<le> 999999"
    and d: "dec_int (generatedOtp r) = dec (nat (generatedOtp r))"
    by (simp_all add: dec_int_def, arith+)
  have v: "valid_time (now + 3600000)"
    using assms(4)
    by (cases "valid_time (now + 3600000)")
      (auto simp: forgotPassword_def Let_def split: if_splits option.splits)
  have c: "cast_date (JStr (toISOString (now + 3600000))) = Some (JDate (now + 3600000))"
    by (rule cast_date_toISOString [OF v])
  from o d have g: "get_field u ''forgot_password_otp'' = JStr (dec (nat (generatedOtp r)))"
    by simp
  from f rng g length_dec_six [OF rng] set_dec [of "nat (generatedOtp r)"] x c
  show ?thesis by blast
qed

text \<open>
  C8 on the worked instance: Alice's request with the draw 1/2.
\<close>

theorem forgotPassword_stores_otp_witness:
  "wf_store (users alice_registered) \<and> (0::real) \<le> 1 / 2 \<and> (1 / 2 :: real) < 1
   \<and> forgotPassword 1793610061123 (1 / 2) (JStr ''alice@x.com'') alice_registered
        = (Inr True, alice_otp_requested)
   \<and> (\<exists>u n. findOne ''email'' (JStr ''alice@x.com'') (users alice_otp_requested) = Some u
          \<and> 100000 \<le> n \<and> n \<le> 999999
          \<and> get_field u ''forgot_password_otp'' = JStr (dec n)
          \<and> length (dec n) = 6 \<and> set (dec n) \<subseteq> set ''0123456789''
          \<and> get_field u ''forgot_password_expiry'' = JDate (1793610061123 + 3600000))"
proof -
  have r: "(0::real) \<le> 1 / 2" "(1 / 2 :: real) < 1" by simp_all
  from forgotPassword_stores_otp [OF wf_alice_registered r alice_forgotPassword]
  obtain u n where "findOne ''email'' (JStr ''alice@x.com'') (users alice_otp_requested) = Some u
          \<and> 100000 \<le> n \<and> n \<le> 999999
          \<and> get_field u ''forgot_password_otp'' = JStr (dec n)
          \<and> length (dec n) = 6 \<and> set (dec n) \<subseteq> set ''0123456789''
          \<and> get_field u ''forgot_password_expiry'' = JDate (1793610061123 + 3600000)"
    by blast
  then have "\<exists>u n. findOne ''email'' (JStr ''alice@x.com'') (users alice_otp_requested) = Some u
          \<and> 100000 \<le> n \<and> n \<le> 999999
          \<and> get_field u ''forgot_password_otp'' = JStr (dec n)
          \<and> length (dec n) = 6 \<and> set (dec n) \<subseteq> set ''0123456789''
          \<and> get_field u ''forgot_password_expiry'' = JDate (1793610061123 + 3600000)"
    by blast
  with wf_alice_registered r alice_forgotPassword show ?thesis by (intro conjI)
qed

text \<open>
  C9. \<^verbatim>\<open>verifyEmail\<close> is idempotent: for every existing user it succeeds, invoking it
  again on the resulting state succeeds and leaves that state as it is (twice equals
  once), and on a user who is already verified it succeeds and changes nothing.
\<close>

theorem verifyEmail_idempotent:
  assumes "truthy code" and "findOne ''_id'' code (users st) = Some u"
  shows "\<exists>st1. verifyEmail code st = (Inr True, st1)
           \<and> verifyEmail code st1 = (Inr True, st1)
           \<and> (get_field u ''verify_email'' = JBool True \<longrightarrow> st1 = st)"
proof -
  let ?upd = "[(''verify_email'', JBool True)]"
  let ?st1 = "st\<lparr>users := updateOne ''_id'' code ?upd (users st)\<rparr>"
  have f: "find (matches ''_id'' code) (users st) = Some u"
    using assms(2) by (simp add: findOne_def)
  then have "matches ''_id'' code u" by (auto simp: find_Some_iff)
  then have m: "matches ''_id'' code (apply_update u ?upd)"
    by (simp add: matches_def map_of_apply_update_other)
  have idem: "apply_update (apply_update u ?upd) ?upd = apply_update u ?upd"
    by (simp add: apply_update_def update_idem)
  have first: "verifyEmail code st = (Inr True, ?st1)"
    using assms by (simp add: verifyEmail_def)
  have f1: "findOne ''_id'' code (users ?st1) = Some (apply_update u ?upd)"
    using find_update_first [OF f m] by (simp add: findOne_def updateOne_def)
  have "updateOne ''_id'' code ?upd (users ?st1) = users ?st1"
    using update_first_idem [OF f m idem] by (simp add: updateOne_def)
  then have second: "verifyEmail code ?st1 = (Inr True, ?st1)"
    using assms(1) f1 by (simp add: verifyEmail_def)
  have third: "?st1 = st" if "get_field u ''verify_email'' = JBool True"
  proof -
    from that have "map_of u ''verify_email'' = Some (JBool True)"
      by (auto simp: get_field_def split: option.splits)
    then have "apply_update u ?upd = u" by (simp add: apply_update_def update_same)
    then have "updateOne ''_id'' code ?upd (users st) = users st"
      using update_first_unchanged [OF f] by (simp add: updateOne_def)
    then show ?thesis by simp
  qed
  from first second third show ?thesis by blast
qed

text \<open>C9 on the worked instance: verifying Alice twice.\<close>

theorem verifyEmail_idempotent_witness:
  "truthy (JStr ''u1'') \<and> findOne ''_id'' (JStr ''u1'') (users alice_registered) \<noteq> None
   \<and> (\<exists>st1. verifyEmail (JStr ''u1'') alice_registered = (Inr True, st1)
          \<and> verifyEmail (JStr ''u1'') st1 = (Inr True, st1))"
proof -
  obtain u where u: "findOne ''_id'' (JStr ''u1'') (users alice_registered) = Some u"
    by (simp add: alice_registered_users findOne_def matches_def)
  from verifyEmail_idempotent [of "JStr ''u1''" alice_registered u] u
  show ?thesis by auto
qed

text \<open>
  C10. For every update payload passed to \<^verbatim>\<open>updateUserDetails\<close>: no stored field other
  than name, email, mobile and password changes; a key whose supplied value is falsy
  (absent, empty string, null) is not written; a falsy password does not make the call
  fail; no document is added or removed.
\<close>

theorem updateUserDetails_frame:
  assumes "updateUserDetails e salt userId updates st = (res, st')"
  shows "(\<forall>k. k \<notin> {''name'', ''email'', ''mobile'', ''password''} \<longrightarrow>
            map (\<lambda>d. map_of d k) (users st') = map (\<lambda>d. map_of d k) (users st))
       \<and> (\<forall>k. \<not> truthy (get_field updates k) \<longrightarrow>
            map (\<lambda>d. map_of d k) (users st') = map (\<lambda>d. map_of d k) (users st))
       \<and> (\<not> truthy (get_field updates ''password'') \<longrightarrow> (\<exists>n. res = Inr n))
       \<and> length (users st') = length (users st) \<and> outbox st' = outbox st"
proof (cases "build_updateData e salt updates")
  case (Inl err)
  with assms have "st' = st" "res = Inl err" by (simp_all add: updateUserDetails_def)
  moreover from Inl have "truthy (get_field updates ''password'')"
    by (auto simp: build_updateData_def split: if_splits)
  ultimately show ?thesis by simp
next
  case (Inr ud)
  with assms have st': "st' = st\<lparr>users := updateOne ''_id'' userId ud (users st)\<rparr>"
    and res: "res = Inr (matchedCount ''_id'' userId (users st))"
    by (simp_all add: updateUserDetails_def)
  have frame: "map (\<lambda>d. map_of d k) (users st') = map (\<lambda>d. map_of d k) (users st)"
    if "k \<notin> fst ` set ud" for k
    using that by (simp add: st' updateOne_def update_first_other_field)
  have a: "map (\<lambda>d. map_of d k) (users st') = map (\<lambda>d. map_of d k) (users st)"
    if "k \<notin> {''name'', ''email'', ''mobile'', ''password''}" for k
    using that keys_build_updateData [OF Inr, of k] by (intro frame) blast
  have b: "map (\<lambda>d. map_of d k) (users st') = map (\<lambda>d. map_of d k) (users st)"
    if "\<not> truthy (get_field updates k)" for k
    using that keys_build_updateData [OF Inr, of k] by (intro frame) blast
  from a b res show ?thesis by (simp add: st' updateOne_def length_update_first)
qed

text \<open>
  C10 on the worked instance: a payload with a new name, an empty email, a null mobile
  and a role leaves email and role as stored and writes the name.
\<close>

theorem updateUserDetails_frame_witness:
  "\<exists>res st'. updateUserDetails demo_env ''salt'' (JStr ''u1'')
        [(''name'', JStr ''Alicia''), (''email'', JStr []), (''mobile'', JNull), (''role'', JStr ''ADMIN'')]
        alice_registered = (res, st')
     \<and> map (\<lambda>d. map_of d ''role'') (users st') = [Some (JStr ''USER'')]
     \<and> map (\<lambda>d. map_of d ''email'') (users st') = [Some (JStr ''alice@x.com'')]
     \<and> map (\<lambda>d. map_of d ''name'') (users st') = [Some (JStr ''Alicia'')]
     \<and> res = Inr 1"
proof -
  let ?upd = "[(''name'', JStr ''Alicia''), (''email'', JStr []), (''mobile'', JNull), (''role'', JStr ''ADMIN'')]"
  obtain res st' where r: "updateUserDetails demo_env ''salt'' (JStr ''u1'') ?upd alice_registered = (res, st')"
    by (cases "updateUserDetails demo_env ''salt'' (JStr ''u1'') ?upd alice_registered")
  have n: "map (\<lambda>d. map_of d ''name'') (users st') = [Some (JStr ''Alicia'')]" "res = Inr 1"
    using r by (auto simp: updateUserDetails_def build_updateData_def updateData_plain_def get_field_def
        alice_registered_users updateOne_def matches_def apply_update_def matchedCount_def findOne_def)
  from updateUserDetails_frame [OF r] have
    "map (\<lambda>d. map_of d ''role'') (users st') = map (\<lambda>d. map_of d ''role'') (users alice_registered)"
    "map (\<lambda>d. map_of d ''email'') (users st') = map (\<lambda>d. map_of d ''email'') (users alice_registered)"
    by (simp_all add: get_field_def)
  with n r show ?thesis by (simp add: alice_registered_users)
qed

end
